theory Spec2Isabelle
  imports Complex_Main "HOL-Library.List_Lexorder" "HOL-Library.Char_ord"
begin

section \<open>The expense screen (src/ExpenseScreen.js)\<close>

text \<open>
  The repository is one React Native component, \<^verbatim>\<open>ExpenseScreen\<close>, working on a
  SQLite table. Its logic is embedded function by function. What the component takes
  from its platform is embedded as well, as far as the component uses it: JavaScript
  numbers, strings and plain objects, \<^verbatim>\<open>parseFloat\<close>, \<^verbatim>\<open>Number\<close>,
  \<^verbatim>\<open>Date\<close>, and the three SQL statements.
\<close>

subsection \<open>JavaScript numbers\<close>

text \<open>
  A JavaScript number is an IEEE 754 binary64 value: not-a-number, the two infinities, or
  a finite value. \<open>Fin q\<close> is the finite value \<open>q\<close>; the two zeros are identified
  (the component never divides by zero and never prints a sign of zero). Every
  arithmetic operation rounds its exact result to the nearest binary64 value, ties to
  even, with gradual underflow and with overflow to infinity: \<open>round_double\<close>.
\<close>

datatype jsnum = NaN | PInf | NInf | Fin rat

definition pow2 :: "int \<Rightarrow> rat" where
  "pow2 k = (if 0 \<le> k then of_int (2 ^ nat k) else 1 / of_int (2 ^ nat (- k)))"

definition pow10 :: "int \<Rightarrow> rat" where
  "pow10 k = (if 0 \<le> k then of_int (10 ^ nat k) else 1 / of_int (10 ^ nat (- k)))"

function bit_length :: "int \<Rightarrow> int" where
  "bit_length n = (if n \<le> 0 then 0 else 1 + bit_length (n div 2))"
  by pat_completeness auto
termination
  by (relation "measure nat") auto

declare bit_length.simps [simp del]

text \<open>\<open>ilog2 a\<close> is the binary exponent of \<open>a > 0\<close>: \<open>2 ^ ilog2 a \<le> a < 2 ^ (ilog2 a + 1)\<close>.\<close>

definition ilog2 :: "rat \<Rightarrow> int" where
  "ilog2 a = (case quotient_of a of (n, d) \<Rightarrow>
     (let e0 = bit_length n - bit_length d
      in if pow2 e0 \<le> a then e0 else e0 - 1))"

definition round_half_even :: "rat \<Rightarrow> int" where
  "round_half_even x =
     (let f = \<lfloor>x\<rfloor>; r = x - of_int f
      in if r < 1 / 2 then f else if 1 / 2 < r then f + 1
         else if even f then f else f + 1)"

definition round_double :: "rat \<Rightarrow> jsnum" where
  "round_double q =
     (if q = 0 then Fin 0
      else let a = \<bar>q\<bar>;
               u = max (ilog2 a - 52) (- 1074);
               r = of_int (round_half_even (a / pow2 u)) * pow2 u
           in if pow2 1024 \<le> r then (if 0 < q then PInf else NInf)
              else Fin (if 0 < q then r else - r))"

text \<open>The operators \<^verbatim>\<open>+\<close>, \<^verbatim>\<open>*\<close> and \<^verbatim>\<open>/\<close> on numbers.\<close>

fun js_add :: "jsnum \<Rightarrow> jsnum \<Rightarrow> jsnum" where
  "js_add NaN _ = NaN"
| "js_add _ NaN = NaN"
| "js_add PInf NInf = NaN"
| "js_add NInf PInf = NaN"
| "js_add PInf _ = PInf"
| "js_add _ PInf = PInf"
| "js_add NInf _ = NInf"
| "js_add _ NInf = NInf"
| "js_add (Fin a) (Fin b) = round_double (a + b)"




text \<open>The comparisons \<^verbatim>\<open><\<close> and \<^verbatim>\<open><=\<close>: false as soon as one side is not a number.\<close>

fun js_lt :: "jsnum \<Rightarrow> jsnum \<Rightarrow> bool" where
  "js_lt NaN _ = False"
| "js_lt _ NaN = False"
| "js_lt PInf _ = False"
| "js_lt _ NInf = False"
| "js_lt NInf _ = True"
| "js_lt _ PInf = True"
| "js_lt (Fin a) (Fin b) = (a < b)"

fun js_le :: "jsnum \<Rightarrow> jsnum \<Rightarrow> bool" where
  "js_le NaN _ = False"
| "js_le _ NaN = False"
| "js_le NInf _ = True"
| "js_le _ PInf = True"
| "js_le PInf _ = False"
| "js_le _ NInf = False"
| "js_le (Fin a) (Fin b) = (a \<le> b)"

definition isNaN :: "jsnum \<Rightarrow> bool" where
  "isNaN x = (x = NaN)"

subsection \<open>JavaScript strings\<close>

text \<open>
  A string is a list of characters; a \<^typ>\<open>char\<close> stands for a code unit below 256.
  \<open>is_ws\<close> holds of the white space and line terminators in that range, which
  \<^verbatim>\<open>trim\<close>, \<^verbatim>\<open>parseFloat\<close> and \<^verbatim>\<open>Number\<close> strip.
\<close>

definition is_ws :: "char \<Rightarrow> bool" where
  "is_ws c = (c \<in> set [CHR 0x09, CHR 0x0A, CHR 0x0B, CHR 0x0C, CHR 0x0D, CHR 0x20, CHR 0xA0])"

definition trim :: "string \<Rightarrow> string" where
  "trim s = rev (dropWhile is_ws (rev (dropWhile is_ws s)))"

definition is_digit :: "char \<Rightarrow> bool" where
  "is_digit c = (CHR ''0'' \<le> c \<and> c \<le> CHR ''9'')"

definition digit_val :: "char \<Rightarrow> int" where
  "digit_val c = int (of_char c) - 48"

definition digits_val :: "string \<Rightarrow> int" where
  "digits_val ds = foldl (\<lambda>a c. 10 * a + digit_val c) 0 ds"

subsection \<open>\<^verbatim>\<open>parseFloat\<close> and \<^verbatim>\<open>Number\<close> on strings\<close>

text \<open>
  \<open>exponent_part s\<close> reads an exponent part (\<^verbatim>\<open>e\<close> or \<^verbatim>\<open>E\<close>, an optional sign,
  one digit at least) at the start of \<open>s\<close>: the exponent and the rest. Where \<open>s\<close> does
  not start with a whole exponent part, nothing is read.
\<close>

definition exponent_part :: "string \<Rightarrow> int \<times> string" where
  "exponent_part s =
     (case s of
        [] \<Rightarrow> (0, s)
      | c # t \<Rightarrow>
          if c = CHR ''e'' \<or> c = CHR ''E'' then
            (case t of
               [] \<Rightarrow> (0, s)
             | sg # t' \<Rightarrow>
                 if sg = CHR ''+'' \<or> sg = CHR ''-'' then
                   (if takeWhile is_digit t' = [] then (0, s)
                    else ((if sg = CHR ''-'' then - digits_val (takeWhile is_digit t')
                           else digits_val (takeWhile is_digit t')),
                          dropWhile is_digit t'))
                 else
                   (if takeWhile is_digit t = [] then (0, s)
                    else (digits_val (takeWhile is_digit t), dropWhile is_digit t)))
          else (0, s))"

text \<open>
  The longest prefix that is an unsigned decimal literal other than \<^verbatim>\<open>Infinity\<close>
  (digits with an optional fraction, or a dot and digits; then an optional exponent
  part): its exact value and the rest of the string. \<open>None\<close> when there is no such prefix.
\<close>

definition str_unsigned_decimal :: "string \<Rightarrow> (rat \<times> string) option" where
  "str_unsigned_decimal s =
     (let ip = takeWhile is_digit s; r1 = dropWhile is_digit s
      in case r1 of
           [] \<Rightarrow> (if ip = [] then None else Some (of_int (digits_val ip), []))
         | c # t \<Rightarrow>
             if c = CHR ''.'' then
               (let fp = takeWhile is_digit t; r2 = dropWhile is_digit t
                in if ip = [] \<and> fp = [] then None
                   else (case exponent_part r2 of (e, r3) \<Rightarrow>
                     Some (of_int (digits_val (ip @ fp)) * pow10 (e - int (length fp)), r3)))
             else if ip = [] then None
             else (case exponent_part r1 of (e, r3) \<Rightarrow>
                     Some (of_int (digits_val ip) * pow10 e, r3)))"

definition str_decimal_literal :: "string \<Rightarrow> (jsnum \<times> string) option" where
  "str_decimal_literal s =
     (let neg = (take 1 s = ''-'');
          u = (if take 1 s = ''+'' \<or> take 1 s = ''-'' then drop 1 s else s)
      in if take 8 u = ''Infinity'' then Some (if neg then NInf else PInf, drop 8 u)
         else (case str_unsigned_decimal u of
                 None \<Rightarrow> None
               | Some (q, r) \<Rightarrow> Some (round_double (if neg then - q else q), r)))"

text \<open>
  \<^verbatim>\<open>parseFloat(string)\<close>: leading white space is skipped, the longest prefix that is a
  decimal literal is read, what follows it is ignored; \<^verbatim>\<open>NaN\<close> when there is no such
  prefix.
\<close>

definition parseFloat :: "string \<Rightarrow> jsnum" where
  "parseFloat s =
     (case str_decimal_literal (dropWhile is_ws s) of
        None \<Rightarrow> NaN
      | Some (x, _) \<Rightarrow> x)"

text \<open>Literals in base 16, 8 and 2, which \<^verbatim>\<open>Number\<close> reads and \<^verbatim>\<open>parseFloat\<close> does not.\<close>

definition radix_digit :: "char \<Rightarrow> int option" where
  "radix_digit c =
     (if CHR ''0'' \<le> c \<and> c \<le> CHR ''9'' then Some (int (of_char c) - 48)
      else if CHR ''a'' \<le> c \<and> c \<le> CHR ''f'' then Some (int (of_char c) - 87)
      else if CHR ''A'' \<le> c \<and> c \<le> CHR ''F'' then Some (int (of_char c) - 55)
      else None)"

definition radix_val :: "int \<Rightarrow> string \<Rightarrow> int option" where
  "radix_val b ds =
     (if ds \<noteq> [] \<and> list_all (\<lambda>c. case radix_digit c of None \<Rightarrow> False | Some v \<Rightarrow> v < b) ds
      then Some (foldl (\<lambda>a c. case radix_digit c of None \<Rightarrow> a | Some v \<Rightarrow> b * a + v) 0 ds)
      else None)"

definition non_decimal_literal :: "string \<Rightarrow> int option" where
  "non_decimal_literal s =
     (if take 2 s = ''0x'' \<or> take 2 s = ''0X'' then radix_val 16 (drop 2 s)
      else if take 2 s = ''0o'' \<or> take 2 s = ''0O'' then radix_val 8 (drop 2 s)
      else if take 2 s = ''0b'' \<or> take 2 s = ''0B'' then radix_val 2 (drop 2 s)
      else None)"

text \<open>
  \<^verbatim>\<open>Number(string)\<close>: the string is trimmed; the empty string is 0; otherwise the whole
  of it has to be one numeric literal, or the result is \<^verbatim>\<open>NaN\<close>.
\<close>

definition string_to_number :: "string \<Rightarrow> jsnum" where
  "string_to_number s =
     (let t = trim s
      in if t = [] then Fin 0
         else (case non_decimal_literal t of
                 Some n \<Rightarrow> round_double (of_int n)
               | None \<Rightarrow>
                   (case str_decimal_literal t of
                      None \<Rightarrow> NaN
                    | Some (x, r) \<Rightarrow> if r = [] then x else NaN)))"

subsection \<open>Values of a row\<close>

text \<open>
  A field of a row read from SQLite is \<^verbatim>\<open>null\<close>, a number or a string; a field that an
  object does not have reads as \<^verbatim>\<open>undefined\<close>.
\<close>

datatype jsval = JUndefined | JNull | JNum jsnum | JStr string

text \<open>Truthiness, as \<^verbatim>\<open>x ? a : b\<close> and \<^verbatim>\<open>x || y\<close> test it.\<close>

fun truthy :: "jsval \<Rightarrow> bool" where
  "truthy JUndefined = False"
| "truthy JNull = False"
| "truthy (JNum x) = (x \<noteq> NaN \<and> x \<noteq> Fin 0)"
| "truthy (JStr s) = (s \<noteq> [])"

text \<open>The conversion \<^verbatim>\<open>Number(x)\<close>.\<close>

fun Number :: "jsval \<Rightarrow> jsnum" where
  "Number JUndefined = NaN"
| "Number JNull = Fin 0"
| "Number (JNum x) = x"
| "Number (JStr s) = string_to_number s"

subsection \<open>Time values and \<^verbatim>\<open>Date\<close>\<close>

text \<open>
  A time value is a number of milliseconds since 1970-01-01T00:00:00Z. The functions
  below are those of the language standard (ECMA-262, Date objects), on integers.
  \<^verbatim>\<open>Date\<close> keeps a time value only inside \<open>\<plusminus>8.64 * 10^15\<close> (past the year 275000); that
  bound is left out.
\<close>

definition msPerDay :: int where
  "msPerDay = 86400000"

definition Day :: "int \<Rightarrow> int" where
  "Day t = t div msPerDay"

definition TimeWithinDay :: "int \<Rightarrow> int" where
  "TimeWithinDay t = t mod msPerDay"

definition DaysInYear :: "int \<Rightarrow> int" where
  "DaysInYear y =
     (if y mod 4 \<noteq> 0 then 365 else if y mod 100 \<noteq> 0 then 366
      else if y mod 400 \<noteq> 0 then 365 else 366)"

definition DayFromYear :: "int \<Rightarrow> int" where
  "DayFromYear y =
     365 * (y - 1970) + (y - 1969) div 4 - (y - 1901) div 100 + (y - 1601) div 400"

text \<open>
  The year of a day number: the largest \<open>y\<close> with \<open>DayFromYear y \<le> d\<close>. The mean length
  of a year gives an estimate that is off by one year at most.
\<close>

definition YearFromDay :: "int \<Rightarrow> int" where
  "YearFromDay d =
     (let y = 1970 + (400 * d) div 146097
      in if DayFromYear (y + 1) \<le> d then y + 1
         else if d < DayFromYear y then y - 1 else y)"

definition YearFromTime :: "int \<Rightarrow> int" where
  "YearFromTime t = YearFromDay (Day t)"

definition InLeapYear :: "int \<Rightarrow> int" where
  "InLeapYear t = (if DaysInYear (YearFromTime t) = 366 then 1 else 0)"

definition DayWithinYear :: "int \<Rightarrow> int" where
  "DayWithinYear t = Day t - DayFromYear (YearFromTime t)"

text \<open>The day within the year on which month \<open>m\<close> (0 to 11) starts; \<open>l\<close> is 1 in a leap year.\<close>

definition month_start :: "int \<Rightarrow> int \<Rightarrow> int" where
  "month_start l m =
     (if m = 0 then 0 else if m = 1 then 31 else if m = 2 then 59 + l
      else if m = 3 then 90 + l else if m = 4 then 120 + l else if m = 5 then 151 + l
      else if m = 6 then 181 + l else if m = 7 then 212 + l else if m = 8 then 243 + l
      else if m = 9 then 273 + l else if m = 10 then 304 + l else 334 + l)"

definition MonthFromTime :: "int \<Rightarrow> int" where
  "MonthFromTime t =
     (let d = DayWithinYear t; l = InLeapYear t
      in if d < 31 then 0 else if d < 59 + l then 1 else if d < 90 + l then 2
         else if d < 120 + l then 3 else if d < 151 + l then 4 else if d < 181 + l then 5
         else if d < 212 + l then 6 else if d < 243 + l then 7 else if d < 273 + l then 8
         else if d < 304 + l then 9 else if d < 334 + l then 10 else 11)"

definition DateFromTime :: "int \<Rightarrow> int" where
  "DateFromTime t = DayWithinYear t - month_start (InLeapYear t) (MonthFromTime t) + 1"

definition WeekDay :: "int \<Rightarrow> int" where
  "WeekDay t = (Day t + 4) mod 7"

definition HourFromTime :: "int \<Rightarrow> int" where
  "HourFromTime t = (t div 3600000) mod 24"

definition MinFromTime :: "int \<Rightarrow> int" where
  "MinFromTime t = (t div 60000) mod 60"

definition SecFromTime :: "int \<Rightarrow> int" where
  "SecFromTime t = (t div 1000) mod 60"

definition msFromTime :: "int \<Rightarrow> int" where
  "msFromTime t = t mod 1000"

definition MakeTime :: "int \<Rightarrow> int \<Rightarrow> int \<Rightarrow> int \<Rightarrow> int" where
  "MakeTime h m s ms = h * 3600000 + m * 60000 + s * 1000 + ms"

text \<open>
  \<open>MakeDay year month date\<close>: the day number of the first of the month (a month outside
  0 to 11 carries into the year), moved by \<open>date - 1\<close> days.
\<close>

definition MakeDay :: "int \<Rightarrow> int \<Rightarrow> int \<Rightarrow> int" where
  "MakeDay year month date =
     (let ym = year + month div 12; mn = month mod 12
      in DayFromYear ym + month_start (if DaysInYear ym = 366 then 1 else 0) mn + date - 1)"

definition MakeDate :: "int \<Rightarrow> int \<Rightarrow> int" where
  "MakeDate day time = day * msPerDay + time"

text \<open>
  Local time. The host's time zone is a parameter of the embedding: \<open>tza\<close>, its offset
  from UTC in milliseconds (negative west of Greenwich), taken as constant.
\<close>

definition LocalTime :: "int \<Rightarrow> int \<Rightarrow> int" where
  "LocalTime tza t = t + tza"

definition UTC :: "int \<Rightarrow> int \<Rightarrow> int" where
  "UTC tza t = t - tza"

text \<open>The methods of \<^verbatim>\<open>Date\<close> the component calls, on the time value of the object.\<close>

definition getFullYear :: "int \<Rightarrow> int \<Rightarrow> int" where
  "getFullYear tza t = YearFromTime (LocalTime tza t)"

definition getMonth :: "int \<Rightarrow> int \<Rightarrow> int" where
  "getMonth tza t = MonthFromTime (LocalTime tza t)"

definition getDate :: "int \<Rightarrow> int \<Rightarrow> int" where
  "getDate tza t = DateFromTime (LocalTime tza t)"

definition getDay :: "int \<Rightarrow> int \<Rightarrow> int" where
  "getDay tza t = WeekDay (LocalTime tza t)"

text \<open>\<^verbatim>\<open>d.setHours(0,0,0,0)\<close> and \<^verbatim>\<open>d.setDate(date)\<close>: the new time value of \<^verbatim>\<open>d\<close>.\<close>

definition setHours0 :: "int \<Rightarrow> int \<Rightarrow> int" where
  "setHours0 tza t = UTC tza (MakeDate (Day (LocalTime tza t)) (MakeTime 0 0 0 0))"

definition setDate :: "int \<Rightarrow> int \<Rightarrow> int \<Rightarrow> int" where
  "setDate tza t date =
     (let l = LocalTime tza t
      in UTC tza (MakeDate (MakeDay (YearFromTime l) (MonthFromTime l) date) (TimeWithinDay l)))"

text \<open>Decimal digits, padded with zeros, for \<^verbatim>\<open>toISOString\<close>.\<close>

function dec_digits :: "int \<Rightarrow> string" where
  "dec_digits n =
     (if n < 10 then [char_of (48 + n)] else dec_digits (n div 10) @ [char_of (48 + n mod 10)])"
  by pat_completeness auto
termination
  by (relation "measure nat") auto

declare dec_digits.simps [simp del]

definition pad :: "nat \<Rightarrow> int \<Rightarrow> string" where
  "pad k n = replicate (k - length (dec_digits n)) (CHR ''0'') @ dec_digits n"

text \<open>
  \<^verbatim>\<open>toISOString()\<close>, in UTC: \<^verbatim>\<open>YYYY-MM-DDTHH:mm:ss.sssZ\<close>; a year outside 0 to 9999
  is written with a sign and six digits.
\<close>

definition toISOString :: "int \<Rightarrow> string" where
  "toISOString t =
     (let y = YearFromTime t
      in (if 0 \<le> y \<and> y \<le> 9999 then pad 4 y
          else (if y < 0 then ''-'' else ''+'') @ pad 6 \<bar>y\<bar>)
         @ ''-'' @ pad 2 (MonthFromTime t + 1) @ ''-'' @ pad 2 (DateFromTime t)
         @ ''T'' @ pad 2 (HourFromTime t) @ '':'' @ pad 2 (MinFromTime t)
         @ '':'' @ pad 2 (SecFromTime t) @ ''.'' @ pad 3 (msFromTime t) @ ''Z'')"

text \<open>
  A date string in the form \<^verbatim>\<open>YYYY-MM-DD\<close> of the standard's date-time string format
  denotes the start of that day in UTC. How \<^verbatim>\<open>new Date(string)\<close> reads any other
  string is left to the JavaScript engine, so the functions below that parse a date
  take the parser as a parameter \<open>parse\<close>, \<open>None\<close> standing for an invalid date;
  \<open>Date_parse_iso\<close> is the parser on the form the component itself writes, and is used
  for the concrete cases, on such dates and on a text that no engine reads as a date. On
  other strings it gives \<open>None\<close>, where an engine may read a date.
\<close>

definition Date_parse_iso :: "string \<Rightarrow> int option" where
  "Date_parse_iso s =
     (if length s = 10 \<and> s ! 4 = CHR ''-'' \<and> s ! 7 = CHR ''-''
         \<and> list_all is_digit (take 4 s) \<and> list_all is_digit (take 2 (drop 5 s))
         \<and> list_all is_digit (drop 8 s)
      then (let y = digits_val (take 4 s); m = digits_val (take 2 (drop 5 s));
                d = digits_val (drop 8 s)
            in if 1 \<le> m \<and> m \<le> 12 \<and> 1 \<le> d
                  \<and> d \<le> MakeDay y m 1 - MakeDay y (m - 1) 1
               then Some (MakeDate (MakeDay y (m - 1) d) 0) else None)
      else None)"

subsection \<open>The table \<^verbatim>\<open>expenses\<close>\<close>

text \<open>
  A row of the table, as \<^verbatim>\<open>getAllAsync\<close> hands it to the component. The columns
  \<^verbatim>\<open>category\<close>, \<^verbatim>\<open>note\<close> and \<^verbatim>\<open>date\<close> have text affinity: \<open>None\<close> is
  \<^verbatim>\<open>null\<close> (or a field that is missing).
\<close>

record expense =
  id' :: int
  amount :: jsval
  category :: "string option"
  note' :: "string option"
  date :: string

text \<open>
  The table: its rows, and the largest row id ever given out, which
  \<^verbatim>\<open>INTEGER PRIMARY KEY AUTOINCREMENT\<close> keeps so that no id is used twice.
\<close>

record store =
  rows :: "expense list"
  seq :: int

definition createTable :: store where
  "createTable = \<lparr>rows = [], seq = 0\<rparr>"

definition max_rowid :: "expense list \<Rightarrow> int" where
  "max_rowid rs = foldl max 0 (map id' rs)"

text \<open>\<^verbatim>\<open>INSERT INTO expenses (amount, category, note, date) VALUES (?, ?, ?, ?)\<close>\<close>

definition sql_insert :: "jsnum \<Rightarrow> string \<Rightarrow> string option \<Rightarrow> string \<Rightarrow> store \<Rightarrow> store" where
  "sql_insert a c n d t =
     (let i = max (seq t) (max_rowid (rows t)) + 1
      in \<lparr>rows = rows t @ [\<lparr>id' = i, amount = JNum a, category = Some c, note' = n, date = d\<rparr>],
          seq = i\<rparr>)"

text \<open>\<^verbatim>\<open>Update expenses SET amount = ?, category = ?, note = ?, date = ? WHERE id = ?\<close>\<close>

definition sql_update :: "jsnum \<Rightarrow> string \<Rightarrow> string option \<Rightarrow> string \<Rightarrow> int \<Rightarrow> store \<Rightarrow> store" where
  "sql_update a c n d i t =
     t\<lparr>rows := map (\<lambda>r. if id' r = i
                         then r\<lparr>amount := JNum a, category := Some c, note' := n, date := d\<rparr>
                         else r) (rows t)\<rparr>"

text \<open>\<^verbatim>\<open>DELETE FROM expenses WHERE id = ?\<close>\<close>

definition sql_delete :: "int \<Rightarrow> store \<Rightarrow> store" where
  "sql_delete i t = t\<lparr>rows := filter (\<lambda>r. id' r \<noteq> i) (rows t)\<rparr>"

text \<open>
  \<^verbatim>\<open>SELECT id, amount, category, note, date FROM expenses ORDER BY date DESC, id DESC\<close>.
  Text is compared byte by byte. \<open>ordered_before a b\<close>: row \<open>a\<close> may stand before row
  \<open>b\<close> in the result.
\<close>

definition ordered_before :: "expense \<Rightarrow> expense \<Rightarrow> bool" where
  "ordered_before a b = (date b < date a \<or> (date a = date b \<and> id' b \<le> id' a))"

fun order_insert :: "expense \<Rightarrow> expense list \<Rightarrow> expense list" where
  "order_insert r [] = [r]"
| "order_insert r (x # xs) = (if ordered_before r x then r # x # xs else x # order_insert r xs)"

definition sql_select_all :: "store \<Rightarrow> expense list" where
  "sql_select_all t = foldr order_insert (rows t) []"

subsection \<open>The state of the screen\<close>

text \<open>
  The state variables of the component. \<open>form_amount\<close>, \<open>form_category\<close> and
  \<open>form_note\<close> are the variables \<^verbatim>\<open>amount\<close>, \<^verbatim>\<open>category\<close> and \<^verbatim>\<open>note\<close> of the
  add form, \<open>filter'\<close> is \<^verbatim>\<open>filter\<close>; \<open>alerts\<close> are the messages shown by
  \<^verbatim>\<open>alert\<close>, the oldest first.
\<close>

record screen =
  db :: store
  expenses :: "expense list"
  form_amount :: string
  form_category :: string
  form_note :: string
  filter' :: string
  editingExpense :: "expense option"
  editAmount :: string
  editCategory :: string
  editNote :: string
  editDate :: string
  alerts :: "string list"

definition loadExpenses :: "screen \<Rightarrow> screen" where
  "loadExpenses s = s\<lparr>expenses := sql_select_all (db s)\<rparr>"

text \<open>\<open>addExpense now s\<close>: the add button is pressed at time \<open>now\<close>.\<close>

definition addExpense :: "int \<Rightarrow> screen \<Rightarrow> screen" where
  "addExpense now s =
     (let amountNumber = parseFloat (form_amount s)
      in if isNaN amountNumber \<or> js_le amountNumber (Fin 0) then s
         else
           (let trimmedCategory = trim (form_category s);
                trimmedNote = trim (form_note s)
            in if trimmedCategory = [] then s
               else
                 (let isoDate = take 10 (toISOString now)
                  in loadExpenses
                       (s\<lparr>db := sql_insert amountNumber trimmedCategory
                                   (if trimmedNote = [] then None else Some trimmedNote)
                                   isoDate (db s),
                          form_amount := [], form_category := [], form_note := []\<rparr>))))"

definition deleteExpense :: "int \<Rightarrow> screen \<Rightarrow> screen" where
  "deleteExpense i s = loadExpenses (s\<lparr>db := sql_delete i (db s)\<rparr>)"

definition alert :: "string \<Rightarrow> screen \<Rightarrow> screen" where
  "alert msg s = s\<lparr>alerts := alerts s @ [msg]\<rparr>"

definition handleSaveEdit :: "screen \<Rightarrow> screen" where
  "handleSaveEdit s =
     (case editingExpense s of
        None \<Rightarrow> s
      | Some e \<Rightarrow>
          (let amountNumber = parseFloat (editAmount s)
           in if isNaN amountNumber \<or> js_le amountNumber (Fin 0)
              then alert ''Please enter a valid positive amount.'' s
              else
                (let trimmedCategory = trim (editCategory s)
                 in if trimmedCategory = [] then alert ''Category is required'' s
                    else
                      (let trimmedDate = trim (editDate s)
                       in if trimmedDate = [] then alert ''Date is required (YYYY-MM-DD).'' s
                          else loadExpenses
                                 (s\<lparr>db := sql_update amountNumber trimmedCategory
                                             (if trim (editNote s) = [] then None
                                              else Some (trim (editNote s)))
                                             trimmedDate (id' e) (db s),
                                    editingExpense := None\<rparr>)))))"

subsection \<open>Filters\<close>

text \<open>
  \<open>now\<close> is the time at which the list is filtered: what \<^verbatim>\<open>new Date()\<close> gives
  there.
\<close>

definition isInCurrentWeek :: "(string \<Rightarrow> int option) \<Rightarrow> int \<Rightarrow> int \<Rightarrow> string \<Rightarrow> bool" where
  "isInCurrentWeek parse tza now dateStr =
     (case parse dateStr of
        None \<Rightarrow> False
      | Some d \<Rightarrow>
          (let today = now;
               startOfWeek = setDate tza (setHours0 tza today) (getDate tza today - getDay tza today);
               endOfWeek = setDate tza startOfWeek (getDate tza startOfWeek + 7)
           in startOfWeek \<le> d \<and> d < endOfWeek))"

definition isInCurrentMonth :: "(string \<Rightarrow> int option) \<Rightarrow> int \<Rightarrow> int \<Rightarrow> string \<Rightarrow> bool" where
  "isInCurrentMonth parse tza now dateStr =
     (case parse dateStr of
        None \<Rightarrow> False
      | Some d \<Rightarrow>
          (let today = now
           in getFullYear tza d = getFullYear tza today \<and> getMonth tza d = getMonth tza today))"

definition filteredExpenses ::
  "(string \<Rightarrow> int option) \<Rightarrow> int \<Rightarrow> int \<Rightarrow> string \<Rightarrow> expense list \<Rightarrow> expense list" where
  "filteredExpenses parse tza now flt es =
     (if flt = ''ALL'' then es
      else if flt = ''WEEK'' then filter (\<lambda>e. isInCurrentWeek parse tza now (date e)) es
      else if flt = ''MONTH'' then filter (\<lambda>e. isInCurrentMonth parse tza now (date e)) es
      else es)"

subsection \<open>Totals\<close>

text \<open>What a record adds to a total: \<^verbatim>\<open>e.amount ? Number(e.amount) : 0\<close>.\<close>

definition amt_of :: "expense \<Rightarrow> jsnum" where
  "amt_of e = (if truthy (amount e) then Number (amount e) else Fin 0)"

definition totalSpending :: "expense list \<Rightarrow> jsnum" where
  "totalSpending es = foldl (\<lambda>sum e. js_add sum (amt_of e)) (Fin 0) es"

text \<open>
  \<^verbatim>\<open>totalsByCategory\<close> collects the totals in a plain object, \<^verbatim>\<open>const map = {}\<close>.
  Such an object has its own properties, kept in the order of their creation, and
  inherits those of \<^verbatim>\<open>Object.prototype\<close>, whose names are \<open>object_prototype_keys\<close>.
  A property of \<^verbatim>\<open>map\<close> holds a number, or a string: \<open>PText k ns\<close> is the string made
  of the text of \<^verbatim>\<open>Object.prototype[k]\<close> followed by the numbers \<open>ns\<close>, written out one
  after the other (adding a number to a function or an object gives a string).
\<close>

datatype propval = PNum jsnum | PText string "jsnum list"

type_synonym jsobject = "(string \<times> propval) list"

definition object_prototype_keys :: "string list" where
  "object_prototype_keys =
     [''constructor'', ''hasOwnProperty'', ''isPrototypeOf'', ''propertyIsEnumerable'',
      ''toLocaleString'', ''toString'', ''valueOf'', ''__proto__'',
      ''__defineGetter__'', ''__defineSetter__'', ''__lookupGetter__'', ''__lookupSetter__'']"

fun put :: "string \<Rightarrow> 'v \<Rightarrow> (string \<times> 'v) list \<Rightarrow> (string \<times> 'v) list" where
  "put k v [] = [(k, v)]"
| "put k v ((k', v') # m) = (if k' = k then (k, v) # m else (k', v') # put k v m)"

text \<open>
  One turn of the loop, \<^verbatim>\<open>map[cat] = (map[cat] || 0) + amt\<close>. An own number that is
  0 or \<^verbatim>\<open>NaN\<close> is falsy and gives way to 0; an own string has the number appended; a
  name that is not an own property is looked up in \<^verbatim>\<open>Object.prototype\<close>, where it finds
  a function or an object (so the sum is a string) or nothing (\<^verbatim>\<open>undefined\<close>, so the
  sum is \<^verbatim>\<open>0 + amt\<close>). Assigning a string to \<^verbatim>\<open>__proto__\<close> changes nothing.
\<close>

definition add_to_map :: "string \<Rightarrow> jsnum \<Rightarrow> jsobject \<Rightarrow> jsobject" where
  "add_to_map cat amt m =
     (case map_of m cat of
        Some (PNum x) \<Rightarrow> put cat (PNum (js_add (if truthy (JNum x) then x else Fin 0) amt)) m
      | Some (PText k ns) \<Rightarrow> put cat (PText k (ns @ [amt])) m
      | None \<Rightarrow>
          if cat \<in> set object_prototype_keys
          then (if cat = ''__proto__'' then m else put cat (PText cat [amt]) m)
          else put cat (PNum (js_add (Fin 0) amt)) m)"

text \<open>The label of a record: \<^verbatim>\<open>e.category || 'Uncategorized'\<close>.\<close>

definition cat_of :: "expense \<Rightarrow> string" where
  "cat_of e = (case category e of
                 None \<Rightarrow> ''Uncategorized''
               | Some c \<Rightarrow> if c = [] then ''Uncategorized'' else c)"

definition totalsByCategory :: "expense list \<Rightarrow> jsobject" where
  "totalsByCategory es = foldl (\<lambda>m e. add_to_map (cat_of e) (amt_of e) m) [] es"

text \<open>
  \<^verbatim>\<open>Object.entries\<close> lists the own properties: first those whose name is an array index
  (a canonical decimal numeral below \<open>2^32 - 1\<close>), by ascending index, then the others
  in the order of their creation.
\<close>

definition is_array_index :: "string \<Rightarrow> bool" where
  "is_array_index k =
     (k \<noteq> [] \<and> list_all is_digit k \<and> (k = ''0'' \<or> take 1 k \<noteq> ''0'')
      \<and> digits_val k \<le> 4294967294)"

definition Object_entries :: "(string \<times> 'v) list \<Rightarrow> (string \<times> 'v) list" where
  "Object_entries m =
     sort_key (\<lambda>p. digits_val (fst p)) (filter (\<lambda>p. is_array_index (fst p)) m)
     @ filter (\<lambda>p. \<not> is_array_index (fst p)) m"

subsection \<open>The chart\<close>







subsection \<open>The sum of the totals\<close>


subsection \<open>Notions the claims use\<close>

text \<open>
  Following the claims' words. A text is blank when it is empty or white space only;
  \<open>trimmed_of s t\<close> says that \<open>t\<close> is \<open>s\<close> without its leading and trailing white
  space: \<open>s\<close> is \<open>t\<close> between two blank texts, and \<open>t\<close> neither starts nor ends with
  white space.
\<close>

definition blank :: "string \<Rightarrow> bool" where
  "blank s = (\<forall>c \<in> set s. is_ws c)"

definition trimmed_of :: "string \<Rightarrow> string \<Rightarrow> bool" where
  "trimmed_of s t =
     (\<exists>pre post. s = pre @ t @ post \<and> blank pre \<and> blank post
        \<and> (t = [] \<or> (\<not> is_ws (hd t) \<and> \<not> is_ws (last t))))"

text \<open>
  An amount is numeric for \<^verbatim>\<open>parseFloat\<close> when, after leading white space and an
  optional sign, it starts with \<^verbatim>\<open>Infinity\<close>, with a digit, or with a dot and a digit.
\<close>

definition numeric_prefix :: "string \<Rightarrow> bool" where
  "numeric_prefix s =
     (let t = dropWhile is_ws s;
          u = (if take 1 t = ''+'' \<or> take 1 t = ''-'' then drop 1 t else t)
      in take 8 u = ''Infinity''
         \<or> (case u of
               [] \<Rightarrow> False
             | c # v \<Rightarrow> is_digit c \<or> (c = CHR ''.'' \<and> (case v of [] \<Rightarrow> False | d # _ \<Rightarrow> is_digit d))))"

text \<open>
  The amounts of stored records are numbers greater than 0, so the totals of a mapping
  are numbers that are not negative.
\<close>

definition positive_amounts :: "expense list \<Rightarrow> bool" where
  "positive_amounts es = (\<forall>e \<in> set es. \<exists>x. amount e = JNum x \<and> js_lt (Fin 0) x)"

definition nonneg_totals :: "jsobject \<Rightarrow> bool" where
  "nonneg_totals m = (\<forall>p \<in> set m. \<exists>x. snd p = PNum x \<and> js_le (Fin 0) x)"

text \<open>
  A rational is exact when it is a double, so that a sum with this value is not rounded;
  \<open>sub_sums qs\<close> are the sums of the sub-lists of \<open>qs\<close>.
\<close>

definition exact :: "rat \<Rightarrow> bool" where
  "exact q = (round_double q = Fin q)"

definition sub_sums :: "rat list \<Rightarrow> rat set" where
  "sub_sums qs = sum_list ` set (subseqs qs)"



subsection \<open>Concrete cases\<close>

text \<open>The state in which the component starts, on an empty table.\<close>

definition initial_screen :: screen where
  "initial_screen =
     \<lparr>db = createTable, expenses = [], form_amount = [], form_category = [], form_note = [],
      filter' = ''ALL'', editingExpense = None, editAmount = [], editCategory = [],
      editNote = [], editDate = [], alerts = []\<rparr>"

text \<open>A table of two rows, and forms filled in.\<close>

definition two_rows :: store where
  "two_rows =
     \<lparr>rows = [\<lparr>id' = 1, amount = JNum (Fin 10), category = Some ''Food'', note' = None,
                date = ''2024-01-01''\<rparr>,
               \<lparr>id' = 2, amount = JNum (Fin 4), category = Some ''Books'', note' = None,
                date = ''2024-01-02''\<rparr>],
      seq = 2\<rparr>"

definition add_form :: screen where
  "add_form =
     initial_screen\<lparr>form_amount := ''12.50'', form_category := ''Food'',
                    form_note := ''  lunch ''\<rparr>"

definition edit_form :: screen where
  "edit_form =
     initial_screen\<lparr>db := two_rows,
                    editingExpense := Some \<lparr>id' = 1, amount = JNum (Fin 10),
                      category = Some ''Food'', note' = None, date = ''2024-01-01''\<rparr>,
                    editAmount := ''10'', editCategory := ''Food'', editNote := ''   '',
                    editDate := ''2024-01-01''\<rparr>"

definition undated :: expense where
  "undated = \<lparr>id' = 3, amount = JNum (Fin 7), category = Some ''Food'', note' = None,
              date = ''soon''\<rparr>"

text \<open>The add form with an amount that starts with a number and goes on with letters.\<close>

definition typed_12abc :: screen where
  "typed_12abc = initial_screen\<lparr>form_amount := ''12abc'', form_category := ''Food''\<rparr>"

text \<open>Records and totals for the concrete cases of the totals and the chart.\<close>

definition rec_abc :: expense where
  "rec_abc = \<lparr>id' = 1, amount = JStr ''abc'', category = Some ''Food'', note' = None,
              date = ''2024-01-01''\<rparr>"

definition ten_and_half :: "expense list" where
  "ten_and_half =
     [\<lparr>id' = 1, amount = JNum (Fin 10), category = Some ''Food'', note' = None,
        date = ''2024-01-01''\<rparr>,
      \<lparr>id' = 2, amount = JNum (Fin (11 / 2)), category = Some ''Books'', note' = None,
        date = ''2024-01-02''\<rparr>]"


definition rec_constructor :: expense where
  "rec_constructor = \<lparr>id' = 1, amount = JNum (Fin (25 / 2)), category = Some ''constructor'',
                       note' = None, date = ''2024-01-01''\<rparr>"

definition food_records :: "expense list" where
  "food_records =
     [\<lparr>id' = 1, amount = JNum (Fin 3), category = Some ''Food'', note' = None,
        date = ''2024-01-03''\<rparr>,
      \<lparr>id' = 2, amount = JNum (Fin 2), category = Some ''Food'', note' = None,
        date = ''2024-01-02''\<rparr>,
      \<lparr>id' = 3, amount = JNum (Fin 1), category = Some [], note' = None,
        date = ''2024-01-01''\<rparr>]"

definition numbered_records :: "expense list" where
  "numbered_records =
     [\<lparr>id' = 1, amount = JNum (Fin 3), category = Some ''Food'', note' = None,
        date = ''2024-01-03''\<rparr>,
      \<lparr>id' = 2, amount = JNum (Fin 2), category = Some ''7'', note' = None,
        date = ''2024-01-02''\<rparr>]"

text \<open>
  A host five hours west of UTC all year (Bogota, Lima), and two instants there: noon of
  Saturday 2024-06-15 and noon of Wednesday 2024-06-12, local time.
\<close>

definition five_hours_west :: int where
  "five_hours_west = - 18000000"

definition noon_2024_06_15_west :: int where
  "noon_2024_06_15_west = 1718470800000"

definition noon_2024_06_12_west :: int where
  "noon_2024_06_12_west = 1718211600000"


section \<open>Properties\<close>

subsection \<open>Trimming\<close>

lemma trim_empty_iff: "trim s = [] \<longleftrightarrow> (\<forall>c \<in> set s. is_ws c)"
proof
  assume "trim s = []"
  then have "dropWhile is_ws (rev (dropWhile is_ws s)) = []"
    by (simp add: trim_def)
  then have "\<forall>c \<in> set (rev (dropWhile is_ws s)). is_ws c"
    by (simp add: dropWhile_eq_Nil_conv)
  then have "dropWhile is_ws s = []"
    using hd_dropWhile [of is_ws s] by (cases "dropWhile is_ws s") auto
  then show "\<forall>c \<in> set s. is_ws c"
    by (simp add: dropWhile_eq_Nil_conv)
next
  assume "\<forall>c \<in> set s. is_ws c"
  then have "dropWhile is_ws s = []"
    by (simp add: dropWhile_eq_Nil_conv)
  then show "trim s = []"
    unfolding trim_def by (metis dropWhile.simps(1) rev.simps(1))
qed

lemma trim_first: "trim s \<noteq> [] \<Longrightarrow> \<not> is_ws (hd (trim s))"
proof -
  assume ne: "trim s \<noteq> []"
  let ?u = "dropWhile is_ws s"
  let ?v = "dropWhile is_ws (rev ?u)"
  have t: "trim s = rev ?v" by (simp add: trim_def)
  from ne t have v: "?v \<noteq> []" by simp
  have "hd (rev ?v) = last ?v" using v by (simp add: hd_rev)
  also have "last ?v = last (rev ?u)"
    using v by (metis append_Nil2 last_appendR takeWhile_dropWhile_id)
  also have "\<dots> = hd ?u" using v by (metis dropWhile.simps(1) last_rev rev.simps(1))
  finally have "hd (trim s) = hd ?u" using t by simp
  moreover have "?u \<noteq> []"
  proof
    assume "?u = []"
    then have "?v = []" by (metis dropWhile.simps(1) rev.simps(1))
    with v show False by simp
  qed
  ultimately show ?thesis using hd_dropWhile by metis
qed

lemma trim_last: "trim s \<noteq> [] \<Longrightarrow> \<not> is_ws (last (trim s))"
proof -
  assume ne: "trim s \<noteq> []"
  let ?v = "dropWhile is_ws (rev (dropWhile is_ws s))"
  have t: "trim s = rev ?v" by (simp add: trim_def)
  from ne t have v: "?v \<noteq> []" by simp
  then have "\<not> is_ws (hd ?v)" by (rule hd_dropWhile)
  moreover have "last (rev ?v) = hd ?v" using v by (simp add: last_rev)
  ultimately show ?thesis using t by simp
qed

text \<open>\<open>trim\<close> gives the text without its leading and trailing white space, and nothing else does.\<close>

lemma trim_blank_iff: "trim s = [] \<longleftrightarrow> blank s"
  by (simp add: trim_empty_iff blank_def)

lemma trim_decomp: "\<exists>pre post. s = pre @ trim s @ post \<and> blank pre \<and> blank post"
proof -
  let ?u = "dropWhile is_ws s"
  let ?pre = "takeWhile is_ws s"
  let ?post = "rev (takeWhile is_ws (rev ?u))"
  have "rev (rev ?u) = rev (takeWhile is_ws (rev ?u) @ dropWhile is_ws (rev ?u))"
    by (simp only: takeWhile_dropWhile_id)
  then have u: "?u = trim s @ ?post"
    by (simp only: rev_rev_ident rev_append trim_def)
  have "s = ?pre @ ?u" by simp
  with u have "s = ?pre @ trim s @ ?post" by simp
  moreover have "blank ?pre" by (auto simp: blank_def dest: set_takeWhileD)
  moreover have "blank ?post" by (auto simp: blank_def dest: set_takeWhileD)
  ultimately show ?thesis by blast
qed

lemma trimmed_of_trim: "trimmed_of s (trim s)"
proof -
  from trim_decomp [of s] obtain pre post
    where "s = pre @ trim s @ post" "blank pre" "blank post" by blast
  moreover have "trim s = [] \<or> (\<not> is_ws (hd (trim s)) \<and> \<not> is_ws (last (trim s)))"
    using trim_first [of s] trim_last [of s] by blast
  ultimately show ?thesis unfolding trimmed_of_def by blast
qed

lemma trimmed_of_unique: "trimmed_of s t \<Longrightarrow> t = trim s"
proof -
  assume "trimmed_of s t"
  then obtain pre post where s: "s = pre @ t @ post" and pre: "blank pre" and post: "blank post"
    and t: "t = [] \<or> (\<not> is_ws (hd t) \<and> \<not> is_ws (last t))"
    unfolding trimmed_of_def by blast
  have d1: "dropWhile is_ws (pre @ ys) = dropWhile is_ws ys" for ys
    using pre by (simp add: blank_def dropWhile_append2)
  have d2: "dropWhile is_ws (rev post @ ys) = dropWhile is_ws ys" for ys
    using post by (intro dropWhile_append2) (simp add: blank_def)
  show ?thesis
  proof (cases "t = []")
    case True
    have "blank s" using s pre post True by (auto simp: blank_def)
    then have "trim s = []" by (simp add: trim_blank_iff)
    with True show ?thesis by simp
  next
    case False
    with t have h: "\<not> is_ws (hd t)" and l: "\<not> is_ws (last t)" by simp_all
    from False h have a: "dropWhile is_ws (t @ post) = t @ post"
      by (cases t) simp_all
    from False l have b: "dropWhile is_ws (rev t) = rev t"
      by (cases "rev t") (simp_all add: last_rev [symmetric] hd_rev)
    have "trim s = rev (dropWhile is_ws (rev (dropWhile is_ws (pre @ t @ post))))"
      by (simp add: trim_def s)
    also have "\<dots> = rev (dropWhile is_ws (rev post @ rev t))"
      by (simp add: d1 a)
    also have "\<dots> = t"
      by (simp add: d2 b)
    finally show ?thesis by simp
  qed
qed

subsection \<open>The table\<close>

lemma set_order_insert: "set (order_insert r xs) = insert r (set xs)"
  by (induction xs) auto

lemma length_order_insert: "length (order_insert r xs) = Suc (length xs)"
  by (induction xs) auto

lemma ordered_before_total: "\<not> ordered_before a b \<Longrightarrow> ordered_before b a"
  by (auto simp: ordered_before_def)

lemma ordered_before_trans: "ordered_before a b \<Longrightarrow> ordered_before b c \<Longrightarrow> ordered_before a c"
  by (auto simp: ordered_before_def)

lemma sorted_order_insert:
  "sorted_wrt ordered_before xs \<Longrightarrow> sorted_wrt ordered_before (order_insert r xs)"
proof (induction xs)
  case Nil
  then show ?case by simp
next
  case (Cons x xs)
  show ?case
  proof (cases "ordered_before r x")
    case True
    with Cons.prems show ?thesis
      by (auto intro: ordered_before_trans)
  next
    case False
    then have "ordered_before x r" by (rule ordered_before_total)
    with Cons False show ?thesis
      by (auto simp: set_order_insert)
  qed
qed

lemma set_select_all: "set (foldr order_insert rs []) = set rs"
  by (induction rs) (auto simp: set_order_insert)

lemma length_select_all: "length (foldr order_insert rs []) = length rs"
  by (induction rs) (auto simp: length_order_insert)

lemma sorted_select_all: "sorted_wrt ordered_before (foldr order_insert rs [])"
  by (induction rs) (auto intro: sorted_order_insert)

lemma distinct_ids_order_insert:
  "distinct (map id' (order_insert r xs)) \<longleftrightarrow> id' r \<notin> id' ` set xs \<and> distinct (map id' xs)"
  by (induction xs) (auto simp: set_order_insert)

lemma distinct_ids_select_all:
  "distinct (map id' (foldr order_insert rs [])) \<longleftrightarrow> distinct (map id' rs)"
  by (induction rs) (auto simp: distinct_ids_order_insert set_select_all)

lemma sorted_strict:
  "sorted_wrt ordered_before xs \<Longrightarrow> distinct (map id' xs) \<Longrightarrow>
   sorted_wrt (\<lambda>r1 r2. date r2 < date r1 \<or> (date r1 = date r2 \<and> id' r2 < id' r1)) xs"
proof (induction xs)
  case Nil
  then show ?case by simp
next
  case (Cons x xs)
  have "date y < date x \<or> (date x = date y \<and> id' y < id' x)" if "y \<in> set xs" for y
  proof -
    from Cons.prems(1) that have "ordered_before x y" by simp
    moreover from Cons.prems(2) that have "id' y \<noteq> id' x" by (auto simp: image_iff)
    ultimately show ?thesis by (auto simp: ordered_before_def)
  qed
  with Cons show ?case by simp
qed

lemma sql_insert_distinct:
  "distinct (map id' (rows t)) \<Longrightarrow> distinct (map id' (rows (sql_insert a c n d t)))"
proof -
  have le: "id' r \<le> foldl max k (map id' rs)" if "r \<in> set rs" for r k rs
    using that
  proof (induction rs arbitrary: k)
    case Nil
    then show ?case by simp
  next
    case (Cons x xs)
    have mono: "k \<le> foldl max k (map id' ys)" for k ys
      by (induction ys arbitrary: k) (auto intro: order_trans [OF max.cobounded1])
    from Cons show ?case
      using mono [of "max k (id' x)" xs] by auto
  qed
  assume "distinct (map id' (rows t))"
  moreover have "max (seq t) (max_rowid (rows t)) + 1 \<notin> id' ` set (rows t)"
    using le [of _ "rows t" 0] by (fastforce simp: max_rowid_def)
  ultimately show ?thesis
    by (simp add: sql_insert_def Let_def)
qed

lemma sql_update_ids: "map id' (rows (sql_update a c n d i t)) = map id' (rows t)"
  by (simp add: sql_update_def comp_def cong: map_cong)

lemma sql_delete_distinct:
  "distinct (map id' (rows t)) \<Longrightarrow> distinct (map id' (rows (sql_delete i t)))"
  by (simp add: sql_delete_def distinct_map_filter)

subsection \<open>The add form and the edit form\<close>

lemma addExpense_valid_rows:
  assumes "\<not> isNaN (parseFloat (form_amount s))" "\<not> js_le (parseFloat (form_amount s)) (Fin 0)"
          "trim (form_category s) \<noteq> []"
  shows "rows (db (addExpense now s)) = rows (db s) @
      [\<lparr>id' = max (seq (db s)) (max_rowid (rows (db s))) + 1,
        amount = JNum (parseFloat (form_amount s)),
        category = Some (trim (form_category s)),
        note' = (if trim (form_note s) = [] then None else Some (trim (form_note s))),
        date = take 10 (toISOString now)\<rparr>]"
  using assms by (simp add: addExpense_def Let_def loadExpenses_def sql_insert_def)

lemma handleSaveEdit_valid_rows:
  assumes "editingExpense s = Some e"
    "\<not> isNaN (parseFloat (editAmount s))" "\<not> js_le (parseFloat (editAmount s)) (Fin 0)"
    "trim (editCategory s) \<noteq> []" "trim (editDate s) \<noteq> []"
  shows "rows (db (handleSaveEdit s)) =
     map (\<lambda>r. if id' r = id' e
               then r\<lparr>amount := JNum (parseFloat (editAmount s)),
                      category := Some (trim (editCategory s)),
                      note' := (if trim (editNote s) = [] then None else Some (trim (editNote s))),
                      date := trim (editDate s)\<rparr>
               else r) (rows (db s))"
  using assms by (simp add: handleSaveEdit_def Let_def loadExpenses_def sql_update_def)

text \<open>The ids of the table stay distinct through every action of the screen.\<close>

lemma initial_ids_distinct: "distinct (map id' (rows (db initial_screen)))"
  by (simp add: initial_screen_def createTable_def)

lemma addExpense_ids_distinct:
  "distinct (map id' (rows (db s))) \<Longrightarrow> distinct (map id' (rows (db (addExpense now s))))"
  by (simp add: addExpense_def Let_def loadExpenses_def sql_insert_distinct)

lemma handleSaveEdit_ids_distinct:
  "distinct (map id' (rows (db s))) \<Longrightarrow> distinct (map id' (rows (db (handleSaveEdit s))))"
  by (simp add: handleSaveEdit_def Let_def loadExpenses_def alert_def sql_update_ids
      split: option.splits)

lemma deleteExpense_ids_distinct:
  "distinct (map id' (rows (db s))) \<Longrightarrow> distinct (map id' (rows (db (deleteExpense i s))))"
  by (simp add: deleteExpense_def loadExpenses_def sql_delete_distinct)

lemma js_valid_amount: "\<not> isNaN x \<Longrightarrow> \<not> js_le x (Fin 0) \<Longrightarrow> js_lt (Fin 0) x"
  by (cases x) (auto simp: isNaN_def)

text \<open>\<^verbatim>\<open>parseFloat\<close> gives \<^verbatim>\<open>NaN\<close> exactly on the amounts that are not numeric for it.\<close>

lemma round_double_not_NaN: "round_double q \<noteq> NaN"
  by (simp add: round_double_def Let_def)

lemma str_unsigned_decimal_None:
  "str_unsigned_decimal u = None \<longleftrightarrow>
     (case u of [] \<Rightarrow> True
      | c # v \<Rightarrow> \<not> is_digit c \<and> \<not> (c = CHR ''.'' \<and> (case v of [] \<Rightarrow> False | d # _ \<Rightarrow> is_digit d)))"
proof (cases u)
  case Nil
  then show ?thesis by (simp add: str_unsigned_decimal_def)
next
  case (Cons c v)
  show ?thesis
  proof (cases "is_digit c")
    case True
    then have "takeWhile is_digit u \<noteq> []" by (simp add: Cons)
    then show ?thesis
      using True Cons
      by (auto simp: str_unsigned_decimal_def Let_def split: list.splits prod.splits)
  next
    case False
    then have tw: "takeWhile is_digit u = []" "dropWhile is_digit u = u" by (simp_all add: Cons)
    have nd: "\<not> is_digit (CHR ''.'')" by (simp add: is_digit_def)
    show ?thesis
    proof (cases "c = CHR ''.''")
      case True
      then show ?thesis
        using Cons
        by (cases v) (auto simp: str_unsigned_decimal_def Let_def nd split: prod.splits)
    next
      case nodot: False
      with False Cons show ?thesis
        by (simp add: str_unsigned_decimal_def Let_def)
    qed
  qed
qed

lemma parseFloat_NaN_iff: "isNaN (parseFloat s) \<longleftrightarrow> \<not> numeric_prefix s"
proof -
  define t where "t = dropWhile is_ws s"
  define u where "u = (if take 1 t = ''+'' \<or> take 1 t = ''-'' then drop 1 t else t)"
  define d where "d = (case u of [] \<Rightarrow> False
      | c # v \<Rightarrow> is_digit c \<or> (c = CHR ''.'' \<and> (case v of [] \<Rightarrow> False | d # _ \<Rightarrow> is_digit d)))"
  have np: "numeric_prefix s \<longleftrightarrow> take 8 u = ''Infinity'' \<or> d"
    unfolding numeric_prefix_def t_def [symmetric] Let_def u_def [symmetric] d_def ..
  have sdl: "str_decimal_literal t =
      (if take 8 u = ''Infinity'' then Some (if take 1 t = ''-'' then NInf else PInf, drop 8 u)
       else (case str_unsigned_decimal u of
               None \<Rightarrow> None
             | Some (q, r) \<Rightarrow> Some (round_double (if take 1 t = ''-'' then - q else q), r)))"
    unfolding str_decimal_literal_def Let_def u_def [symmetric] ..
  have un: "str_unsigned_decimal u = None \<longleftrightarrow> \<not> d"
    unfolding d_def str_unsigned_decimal_None by (cases u) auto
  have pf: "parseFloat s = (case str_decimal_literal t of None \<Rightarrow> NaN | Some (x, _) \<Rightarrow> x)"
    unfolding parseFloat_def t_def ..
  show ?thesis
  proof (cases "take 8 u = ''Infinity''")
    case True
    then have "parseFloat s \<noteq> NaN" by (simp add: pf sdl)
    with True np show ?thesis by (simp add: isNaN_def)
  next
    case False
    show ?thesis
    proof (cases "str_unsigned_decimal u")
      case None
      with False have "parseFloat s = NaN" by (simp add: pf sdl)
      moreover from None un have "\<not> d" by simp
      ultimately show ?thesis using False np by (simp add: isNaN_def)
    next
      case (Some p)
      obtain q r where p: "p = (q, r)" by (cases p)
      from Some False have "parseFloat s \<noteq> NaN"
        by (simp add: pf sdl p round_double_not_NaN)
      moreover from Some un have "d" by auto
      ultimately show ?thesis using np by (simp add: isNaN_def)
    qed
  qed
qed

lemma blank_spaces: "blank ''   ''" "\<not> blank ''Food''" "\<not> blank ''  lunch ''"
  "\<not> blank ''2024-01-01''"
  by (simp_all add: blank_def is_ws_def)

lemma pf_zero: "parseFloat ''0'' = Fin 0" by code_simp
lemma pf_minus5: "parseFloat ''-5'' = Fin (- 5)" by code_simp
lemma pf_abc: "parseFloat ''abc'' = NaN" by code_simp
lemma pf_1250: "parseFloat ''12.50'' = Fin (25 / 2)" by code_simp
lemma trim_blank: "trim ''   '' = []" by code_simp
lemma trim_food: "trim ''Food'' = ''Food''" by code_simp
lemma trim_lunch: "trim ''  lunch '' = ''lunch''" by code_simp
lemma pf_10: "parseFloat ''10'' = Fin 10" by code_simp
lemma trim_date: "trim ''2024-01-01'' = ''2024-01-01''" by code_simp

subsection \<open>Rounding\<close>

text \<open>Whole numbers up to \<open>2^53\<close> are doubles, so adding them is exact.\<close>

lemma bit_length_nonneg: "0 \<le> bit_length n"
proof (induction n rule: bit_length.induct)
  case (1 n)
  then show ?case
    by (cases "n \<le> 0") (simp_all add: bit_length.simps [of n])
qed

lemma bit_length_pos: "0 < n \<Longrightarrow> 1 \<le> bit_length n"
  using bit_length_nonneg [of "n div 2"] by (simp add: bit_length.simps [of n])

lemma bit_length_bounds:
  "0 < n \<Longrightarrow> 2 ^ nat (bit_length n - 1) \<le> n \<and> n < 2 ^ nat (bit_length n)"
proof (induction n rule: bit_length.induct)
  case (1 n)
  show ?case
  proof (cases "0 < n div 2")
    case False
    with 1 have n: "n = 1" by auto
    have "bit_length 1 = 1"
      by (simp add: bit_length.simps [of 1] bit_length.simps [of 0])
    with n show ?thesis by simp
  next
    case True
    let ?b = "bit_length (n div 2)"
    from True 1 have ih: "2 ^ nat (?b - 1) \<le> n div 2" "n div 2 < 2 ^ nat ?b"
      by auto
    from True have b: "1 \<le> ?b" by (rule bit_length_pos)
    from 1 have bl: "bit_length n = 1 + ?b"
      by (simp add: bit_length.simps [of n])
    from b have p: "(2::int) ^ nat ?b = 2 * 2 ^ nat (?b - 1)"
      by (metis Suc_nat_eq_nat_zadd1 add.commute diff_add_cancel diff_ge_0_iff_ge power_Suc)
    have q: "(2::int) ^ nat (1 + ?b) = 2 * 2 ^ nat ?b"
      using b by (metis Suc_nat_eq_nat_zadd1 add.commute order_trans power_Suc zero_le_one)
    have "2 * (n div 2) \<le> n" "n \<le> 2 * (n div 2) + 1" by presburger+
    with ih p q show ?thesis
      by (simp add: bl)
  qed
qed

lemma pow2_pos: "0 < pow2 k"
  by (simp add: pow2_def)

lemma round_half_even_int: "round_half_even (of_int k) = k"
  by (simp add: round_half_even_def)

lemma ilog2_of_int: "0 < n \<Longrightarrow> ilog2 (of_int n) = bit_length n - 1"
proof -
  assume n: "0 < n"
  have b1: "bit_length 1 = 1"
    by (simp add: bit_length.simps [of 1] bit_length.simps [of 0])
  from n have bp: "0 \<le> bit_length n - 1" using bit_length_pos [of n] by simp
  from bit_length_bounds [OF n] have "(2::int) ^ nat (bit_length n - 1) \<le> n" by simp
  then have "(of_int (2 ^ nat (bit_length n - 1)) :: rat) \<le> of_int n"
    by (simp only: of_int_le_iff)
  with bp have "pow2 (bit_length n - 1) \<le> of_int n"
    by (simp add: pow2_def)
  then show ?thesis
    by (simp add: ilog2_def b1)
qed

lemma pow2_nonpos: "u \<le> 0 \<Longrightarrow> pow2 u = 1 / of_int (2 ^ nat (- u))"
  by (cases "u = 0") (simp_all add: pow2_def)

lemma round_double_of_int:
  assumes "0 \<le> n" "n \<le> 2 ^ 53"
  shows "round_double (of_int n) = Fin (of_int n)"
proof (cases "n = 0")
  case True
  then show ?thesis by (simp add: round_double_def)
next
  case False
  with assms have n: "0 < n" by simp
  define e where "e = bit_length n - 1"
  have il: "ilog2 (of_int n) = e" using n by (simp add: ilog2_of_int e_def)
  from bit_length_bounds [OF n]
  have lo: "2 ^ nat e \<le> n" by (simp add: e_def)
  have e0: "0 \<le> e" using bit_length_pos [OF n] by (simp add: e_def)
  have e53: "e \<le> 53"
  proof (rule ccontr)
    assume "\<not> e \<le> 53"
    then have "54 \<le> nat e" by simp
    then have "(2::int) ^ 54 \<le> 2 ^ nat e" by (intro power_increasing) simp_all
    with lo assms(2) show False by simp
  qed
  define u where "u = e - 52"
  have mx: "max (e - 52) (- 1074) = u" using e0 by (simp add: u_def)
  have r: "of_int (round_half_even (of_int n / pow2 u)) * pow2 u = (of_int n :: rat)"
  proof (cases "u \<le> 0")
    case True
    define k where "k = nat (- u)"
    have p: "pow2 u = 1 / of_int (2 ^ k)"
      using pow2_nonpos [OF True] by (simp add: k_def)
    have "(of_int n :: rat) / pow2 u = of_int (n * 2 ^ k)"
      by (simp add: p)
    then have "round_half_even (of_int n / pow2 u) = n * 2 ^ k"
      by (simp only: round_half_even_int)
    then show ?thesis
      by (simp add: p)
  next
    case False
    with e53 have e: "u = 1" by (simp add: u_def)
    then have "e = 53" by (simp add: u_def)
    with lo assms(2) have n53: "n = 2 ^ 53" by simp
    have p: "pow2 u = 2" by (simp add: e pow2_def)
    have "(of_int n :: rat) / 2 = of_int (2 ^ 52)" by (simp add: n53)
    then have "round_half_even (of_int n / pow2 u) = 2 ^ 52"
      by (simp only: p round_half_even_int)
    then show ?thesis
      by (simp add: p n53)
  qed
  have big: "\<not> pow2 1024 \<le> (of_int n :: rat)"
  proof -
    have "n < 2 ^ 1024" using assms(2) by (rule order_le_less_trans) simp
    then have "(of_int n :: rat) < of_int (2 ^ 1024)" by (simp only: of_int_less_iff)
    then show ?thesis by (simp add: pow2_def)
  qed
  have nz: "(of_int n :: rat) \<noteq> 0" "(0::rat) < of_int n" "\<bar>of_int n :: rat\<bar> = of_int n"
    using n by simp_all
  show ?thesis
    unfolding round_double_def Let_def nz(3) il mx r
    using nz big by simp
qed

lemma js_add_whole:
  "a + b \<le> 2 ^ 53 \<Longrightarrow> js_add (Fin (of_nat a)) (Fin (of_nat b)) = Fin (of_nat (a + b))"
proof -
  assume "a + b \<le> 2 ^ 53"
  then have "int (a + b) \<le> 2 ^ 53" by (metis of_nat_le_iff of_nat_numeral of_nat_power)
  from round_double_of_int [OF _ this] show ?thesis
    by simp
qed

lemma round_double_nonneg: "0 \<le> q \<Longrightarrow> js_le (Fin 0) (round_double q)"
proof -
  assume q: "0 \<le> q"
  have "0 \<le> round_half_even x" if "0 \<le> x" for x
    using that by (auto simp: round_half_even_def Let_def)
  moreover have "0 \<le> \<bar>q\<bar> / pow2 u" for u
    using pow2_pos [of u] by simp
  ultimately have "0 \<le> (of_int (round_half_even (\<bar>q\<bar> / pow2 u)) :: rat) * pow2 u" for u
    using pow2_pos [of u] by (simp add: less_imp_le)
  with q show ?thesis
    by (auto simp: round_double_def Let_def)
qed

lemma js_add_nonneg: "js_le (Fin 0) x \<Longrightarrow> js_le (Fin 0) y \<Longrightarrow> js_le (Fin 0) (js_add x y)"
  by (cases x; cases y) (auto simp: round_double_nonneg)

subsection \<open>Dates\<close>

text \<open>
  \<open>YearFromDay\<close> is the year function of the standard: the year \<open>y\<close> of a day is the
  one with \<open>DayFromYear y \<le> day < DayFromYear (y + 1)\<close>.
\<close>

lemma div_bounds: "0 < k \<Longrightarrow> k * (x div k) \<le> x \<and> x < k * (x div k) + k" for x k :: int
proof -
  assume k: "0 < k"
  have "k * (x div k) + x mod k = x" by simp
  moreover have "0 \<le> x mod k" "x mod k < k" using k by simp_all
  ultimately show ?thesis by linarith
qed

lemma DayFromYear_bounds:
  "146097 * (y - 1970) - 506 \<le> 400 * DayFromYear y
   \<and> 400 * DayFromYear y \<le> 146097 * (y - 1970) + 589"
proof -
  define a where "a = (y - 1969) div 4"
  define b where "b = (y - 1901) div 100"
  define c where "c = (y - 1601) div 400"
  have a: "4 * a \<le> y - 1969" "y - 1969 < 4 * a + 4"
    unfolding a_def using div_bounds [of 4 "y - 1969"] by simp_all
  have b: "100 * b \<le> y - 1901" "y - 1901 < 100 * b + 100"
    unfolding b_def using div_bounds [of 100 "y - 1901"] by simp_all
  have c: "400 * c \<le> y - 1601" "y - 1601 < 400 * c + 400"
    unfolding c_def using div_bounds [of 400 "y - 1601"] by simp_all
  have d: "DayFromYear y = 365 * (y - 1970) + a - b + c"
    by (simp add: DayFromYear_def a_def b_def c_def)
  have e: "400 * DayFromYear y = 146000 * (y - 1970) + 400 * a - 400 * b + 400 * c"
    unfolding d by (simp add: algebra_simps)
  have a': "100 * (y - 1969) - 300 \<le> 400 * a" "400 * a \<le> 100 * (y - 1969)"
    using a by simp_all
  have b': "4 * (y - 1901) - 396 \<le> 400 * b" "400 * b \<le> 4 * (y - 1901)"
    using b by simp_all
  have c': "y - 1601 - 399 \<le> 400 * c" "400 * c \<le> y - 1601"
    using c by simp_all
  have "146097 * (y - 1970) - 506 \<le> 400 * DayFromYear y"
    unfolding e using a' b' c' by simp
  moreover have "400 * DayFromYear y \<le> 146097 * (y - 1970) + 589"
    unfolding e using a' b' c' by simp
  ultimately show ?thesis by simp
qed

lemma YearFromDay_bounds:
  "DayFromYear (YearFromDay d) \<le> d \<and> d < DayFromYear (YearFromDay d + 1)"
proof -
  define z where "z = (400 * d) div 146097"
  have z: "146097 * z \<le> 400 * d" "400 * d < 146097 * z + 146097"
    unfolding z_def using div_bounds [of 146097 "400 * d"] by simp_all
  define y where "y = 1970 + z"
  have b0: "400 * DayFromYear (y - 1) \<le> 146097 * z - 145508"
    using DayFromYear_bounds [of "y - 1"] by (simp add: y_def)
  have b2: "146097 * z + 291688 \<le> 400 * DayFromYear (y + 2)"
    using DayFromYear_bounds [of "y + 2"] by (simp add: y_def)
  have yd: "YearFromDay d =
      (if DayFromYear (y + 1) \<le> d then y + 1 else if d < DayFromYear y then y - 1 else y)"
    by (simp add: YearFromDay_def z_def y_def Let_def)
  show ?thesis
  proof (cases "DayFromYear (y + 1) \<le> d")
    case True
    have "400 * d < 400 * DayFromYear (y + 2)" using b2 z by simp
    then have "d < DayFromYear (y + 1 + 1)" by (simp add: add.commute)
    with True show ?thesis by (simp only: yd if_True)
  next
    case False
    show ?thesis
    proof (cases "d < DayFromYear y")
      case True
      have "400 * DayFromYear (y - 1) \<le> 400 * d" using b0 z by simp
      then have "DayFromYear (y - 1) \<le> d" by simp
      with True False show ?thesis by (simp add: yd)
    next
      case nl: False
      with False show ?thesis by (simp add: yd)
    qed
  qed
qed

text \<open>
  What the week test computes, for a host at a constant offset from UTC: the week starts
  at local midnight, \<^verbatim>\<open>getDay()\<close> days before today, which is a Sunday, and lasts seven
  days; a date is in the week when the instant it was read as is in that interval.
\<close>

lemma MonthFromTime_range: "0 \<le> MonthFromTime t \<and> MonthFromTime t \<le> 11"
  by (simp add: MonthFromTime_def Let_def)

lemma MakeDay_of_fields:
  "MakeDay (YearFromTime t) (MonthFromTime t) (DateFromTime t + k) = Day t + k"
proof -
  have m: "MonthFromTime t div 12 = 0" "MonthFromTime t mod 12 = MonthFromTime t"
    using MonthFromTime_range [of t] by simp_all
  show ?thesis
    by (simp add: MakeDay_def m Let_def DateFromTime_def DayWithinYear_def InLeapYear_def)
qed

lemma Day_of_midnight: "Day (k * msPerDay) = k" "TimeWithinDay (k * msPerDay) = 0"
  by (simp_all add: Day_def TimeWithinDay_def msPerDay_def)

lemma fields_of_Day:
  "Day a = Day b \<Longrightarrow> YearFromTime a = YearFromTime b \<and> MonthFromTime a = MonthFromTime b
     \<and> DateFromTime a = DateFromTime b"
  by (simp add: YearFromTime_def MonthFromTime_def DateFromTime_def DayWithinYear_def
      InLeapYear_def)

lemma setDate_midnight:
  "setDate tza (UTC tza (k * msPerDay)) (getDate tza (UTC tza (k * msPerDay)) + j)
   = UTC tza ((k + j) * msPerDay)"
proof -
  have l: "LocalTime tza (UTC tza (k * msPerDay)) = k * msPerDay"
    by (simp add: LocalTime_def UTC_def)
  show ?thesis
    using MakeDay_of_fields [of "k * msPerDay" j]
    by (simp add: setDate_def getDate_def l Let_def Day_of_midnight MakeDate_def)
qed

lemma startOfWeek_eq:
  "setDate tza (setHours0 tza now) (getDate tza now - getDay tza now)
   = UTC tza ((Day (LocalTime tza now) - WeekDay (LocalTime tza now)) * msPerDay)"
proof -
  let ?l = "LocalTime tza now"
  have h: "setHours0 tza now = UTC tza (Day ?l * msPerDay)"
    by (simp add: setHours0_def MakeDate_def MakeTime_def)
  have "Day (Day ?l * msPerDay) = Day ?l" by (rule Day_of_midnight)
  from fields_of_Day [OF this]
  have "getDate tza (UTC tza (Day ?l * msPerDay)) = getDate tza now"
    by (simp add: getDate_def LocalTime_def UTC_def)
  with setDate_midnight [of tza "Day ?l" "- WeekDay ?l"] show ?thesis
    by (simp add: h getDay_def)
qed

lemma week_interval:
  "isInCurrentWeek parse tza now s =
     (case parse s of
        None \<Rightarrow> False
      | Some d \<Rightarrow>
          UTC tza ((Day (LocalTime tza now) - WeekDay (LocalTime tza now)) * msPerDay) \<le> d
          \<and> d < UTC tza ((Day (LocalTime tza now) - WeekDay (LocalTime tza now)) * msPerDay)
                 + 7 * msPerDay)"
proof -
  let ?k = "Day (LocalTime tza now) - WeekDay (LocalTime tza now)"
  have "setDate tza (UTC tza (?k * msPerDay)) (getDate tza (UTC tza (?k * msPerDay)) + 7)
        = UTC tza (?k * msPerDay) + 7 * msPerDay"
    by (simp add: setDate_midnight) (simp add: UTC_def algebra_simps)
  then show ?thesis
    by (simp add: isInCurrentWeek_def startOfWeek_eq Let_def split: option.splits)
qed

lemma week_starts_on_sunday:
  "getDay tza (UTC tza ((Day (LocalTime tza now) - WeekDay (LocalTime tza now)) * msPerDay)) = 0"
proof -
  have "(Day (LocalTime tza now) - (Day (LocalTime tza now) + 4) mod 7 + 4) mod 7 = 0"
    by presburger
  then show ?thesis
    by (simp add: getDay_def LocalTime_def UTC_def WeekDay_def Day_of_midnight)
qed

subsection \<open>Claims on the table and the forms\<close>

text \<open>
  C1. Whatever the table holds, \<^verbatim>\<open>loadExpenses\<close> sets \<^verbatim>\<open>expenses\<close> to the rows of
  the table (each of them, once) by date descending, then id descending: of two rows
  of the list, the one that stands first has the greater date, or the same date and the
  greater id. Dates are compared as the text they are stored as. The ids of a table are
  distinct (\<^verbatim>\<open>id\<close> is its primary key; \<open>sql_insert_distinct\<close>, \<open>sql_update_ids\<close>
  and \<open>sql_delete_distinct\<close> show the three statements keep them so). The rows dated
  2024-01-01 (id 1) and 2024-01-02 (id 2) come back as id 2, id 1.
\<close>

theorem listAll_ordered:
  assumes "distinct (map id' (rows (db s)))"
  shows "sorted_wrt (\<lambda>r1 r2. date r2 < date r1 \<or> (date r1 = date r2 \<and> id' r2 < id' r1))
           (expenses (loadExpenses s))
         \<and> set (expenses (loadExpenses s)) = set (rows (db s))
         \<and> length (expenses (loadExpenses s)) = length (rows (db s))"
  using assms
  by (simp add: loadExpenses_def sql_select_all_def set_select_all length_select_all
      sorted_strict sorted_select_all distinct_ids_select_all)

theorem listAll_ordered_witness:
  "distinct (map id' (rows (db (initial_screen\<lparr>db := two_rows\<rparr>))))
   \<and> map id' (expenses (loadExpenses (initial_screen\<lparr>db := two_rows\<rparr>))) = [2, 1]
   \<and> sorted_wrt (\<lambda>r1 r2. date r2 < date r1 \<or> (date r1 = date r2 \<and> id' r2 < id' r1))
           (expenses (loadExpenses (initial_screen\<lparr>db := two_rows\<rparr>)))"
proof -
  have d: "distinct (map id' (rows (db (initial_screen\<lparr>db := two_rows\<rparr>))))"
    by (simp add: two_rows_def)
  have e: "map id' (expenses (loadExpenses (initial_screen\<lparr>db := two_rows\<rparr>))) = [2, 1]"
    by (simp add: loadExpenses_def sql_select_all_def two_rows_def ordered_before_def)
  from listAll_ordered [OF d] d e show ?thesis by blast
qed

text \<open>
  C2, as amended. An add whose amount is not numeric for \<^verbatim>\<open>parseFloat\<close> (it reads
  \<^verbatim>\<open>NaN\<close>: after leading white space and an optional sign the amount starts neither
  with a digit, nor with a dot and a digit, nor with \<^verbatim>\<open>Infinity\<close>), or whose amount
  \<^verbatim>\<open>parseFloat\<close> reads as a number that is not greater than 0, or whose category is
  blank, leaves the whole state as it was: no row is written (the table, its row count and
  its id counter are unchanged), no alert is shown, and the form keeps its text. Every
  other add writes one row.
\<close>

theorem addExpense_rejects:
  "(isNaN (parseFloat (form_amount s)) \<or> js_le (parseFloat (form_amount s)) (Fin 0)
      \<or> blank (form_category s)
    \<longrightarrow> addExpense now s = s)
   \<and> (\<not> isNaN (parseFloat (form_amount s)) \<and> \<not> js_le (parseFloat (form_amount s)) (Fin 0)
      \<and> \<not> blank (form_category s)
    \<longrightarrow> length (rows (db (addExpense now s))) = Suc (length (rows (db s))))
   \<and> (isNaN (parseFloat (form_amount s)) \<longleftrightarrow> \<not> numeric_prefix (form_amount s))"
proof (intro conjI impI)
  assume "isNaN (parseFloat (form_amount s)) \<or> js_le (parseFloat (form_amount s)) (Fin 0)
      \<or> blank (form_category s)"
  then show "addExpense now s = s"
    by (auto simp: addExpense_def Let_def trim_blank_iff)
next
  assume "\<not> isNaN (parseFloat (form_amount s)) \<and> \<not> js_le (parseFloat (form_amount s)) (Fin 0)
      \<and> \<not> blank (form_category s)"
  then show "length (rows (db (addExpense now s))) = Suc (length (rows (db s)))"
    using addExpense_valid_rows [of s now] by (simp add: trim_blank_iff)
next
  show "isNaN (parseFloat (form_amount s)) \<longleftrightarrow> \<not> numeric_prefix (form_amount s)"
    by (rule parseFloat_NaN_iff)
qed

theorem addExpense_rejects_witness:
  "addExpense 1718470800000 (initial_screen\<lparr>form_amount := ''0'', form_category := ''Food''\<rparr>)
     = initial_screen\<lparr>form_amount := ''0'', form_category := ''Food''\<rparr>
   \<and> addExpense 1718470800000 (initial_screen\<lparr>form_amount := ''-5'', form_category := ''Food''\<rparr>)
     = initial_screen\<lparr>form_amount := ''-5'', form_category := ''Food''\<rparr>
   \<and> addExpense 1718470800000 (initial_screen\<lparr>form_amount := ''abc'', form_category := ''Food''\<rparr>)
     = initial_screen\<lparr>form_amount := ''abc'', form_category := ''Food''\<rparr>
   \<and> addExpense 1718470800000 (initial_screen\<lparr>form_amount := ''12.50'', form_category := ''   ''\<rparr>)
     = initial_screen\<lparr>form_amount := ''12.50'', form_category := ''   ''\<rparr>
   \<and> length (rows (db add_form)) = 0
   \<and> length (rows (db (addExpense 1718470800000 add_form))) = 1"
proof -
  let ?s1 = "initial_screen\<lparr>form_amount := ''0'', form_category := ''Food''\<rparr>"
  let ?s2 = "initial_screen\<lparr>form_amount := ''-5'', form_category := ''Food''\<rparr>"
  let ?s3 = "initial_screen\<lparr>form_amount := ''abc'', form_category := ''Food''\<rparr>"
  let ?s4 = "initial_screen\<lparr>form_amount := ''12.50'', form_category := ''   ''\<rparr>"
  have "js_le (parseFloat (form_amount ?s1)) (Fin 0)" by (simp add: pf_zero)
  with addExpense_rejects [of ?s1 1718470800000]
  have 1: "addExpense 1718470800000 ?s1 = ?s1" by blast
  have "js_le (parseFloat (form_amount ?s2)) (Fin 0)" by (simp add: pf_minus5)
  with addExpense_rejects [of ?s2 1718470800000]
  have 2: "addExpense 1718470800000 ?s2 = ?s2" by blast
  have "isNaN (parseFloat (form_amount ?s3))" by (simp add: pf_abc isNaN_def)
  with addExpense_rejects [of ?s3 1718470800000]
  have 3: "addExpense 1718470800000 ?s3 = ?s3" by blast
  have "blank (form_category ?s4)" by (simp add: blank_spaces)
  with addExpense_rejects [of ?s4 1718470800000]
  have 4: "addExpense 1718470800000 ?s4 = ?s4" by blast
  have "\<not> isNaN (parseFloat (form_amount add_form))
        \<and> \<not> js_le (parseFloat (form_amount add_form)) (Fin 0)
        \<and> \<not> blank (form_category add_form)"
    by (simp add: add_form_def initial_screen_def pf_1250 blank_spaces isNaN_def)
  with addExpense_rejects [of add_form 1718470800000]
  have "length (rows (db (addExpense 1718470800000 add_form))) = Suc (length (rows (db add_form)))"
    by blast
  moreover have 5: "length (rows (db add_form)) = 0"
    by (simp add: add_form_def initial_screen_def createTable_def)
  ultimately have 6: "length (rows (db (addExpense 1718470800000 add_form))) = 1" by simp
  from 1 2 3 4 5 6 show ?thesis by blast
qed

text \<open>
  C2 as stated fails: the amount \<^verbatim>\<open>12abc\<close> is not numeric (\<^verbatim>\<open>Number\<close> gives
  \<^verbatim>\<open>NaN\<close> for it), but \<^verbatim>\<open>parseFloat\<close> reads the 12 it starts with, and the add
  writes a row of amount 12.
\<close>

theorem addExpense_numeric_prefix_counterexample:
  "string_to_number ''12abc'' = NaN \<and> parseFloat ''12abc'' = Fin 12
   \<and> rows (db typed_12abc) = []
   \<and> rows (db (addExpense noon_2024_06_15_west typed_12abc))
       = [\<lparr>id' = 1, amount = JNum (Fin 12), category = Some ''Food'', note' = None,
           date = ''2024-06-15''\<rparr>]"
  by code_simp

text \<open>
  C7. A record whose date the parser does not read is in neither the week's nor the
  month's list, and the filter \<^verbatim>\<open>ALL\<close> hands back every record. The filters are total
  functions: an invalid date is a value (\<open>None\<close>), which both tests answer with
  \<^verbatim>\<open>false\<close>; no step of them can throw.
\<close>

theorem unparseable_date_filtered:
  assumes "parse (date e) = None"
  shows "e \<notin> set (filteredExpenses parse tza now ''WEEK'' es)
         \<and> e \<notin> set (filteredExpenses parse tza now ''MONTH'' es)
         \<and> filteredExpenses parse tza now ''ALL'' es = es"
  using assms
  by (simp add: filteredExpenses_def isInCurrentWeek_def isInCurrentMonth_def)

theorem unparseable_date_filtered_witness:
  "Date_parse_iso (date undated) = None
   \<and> undated \<notin> set (filteredExpenses Date_parse_iso 0 1718470800000 ''WEEK'' [undated])
   \<and> undated \<notin> set (filteredExpenses Date_parse_iso 0 1718470800000 ''MONTH'' [undated])
   \<and> filteredExpenses Date_parse_iso 0 1718470800000 ''ALL'' [undated] = [undated]"
proof -
  have n: "Date_parse_iso (date undated) = None"
    by (simp add: undated_def Date_parse_iso_def)
  from unparseable_date_filtered
      [where parse = Date_parse_iso and e = undated and tza = 0 and now = 1718470800000
         and es = "[undated]"] n
  show ?thesis by blast
qed

text \<open>
  C10. When an add passes its checks, the row it appends has no note (\<^verbatim>\<open>null\<close>) if the
  note field is blank, and otherwise has for note the text of the field without its
  leading and trailing white space, which is not empty; when an edit passes its checks,
  the same holds of the note of every row with the edited id. In neither case is the
  stored note the empty string. (By \<open>trimmed_of_unique\<close> there is one text only that is
  the field's text without its leading and trailing white space.)
\<close>

theorem note_trimmed_or_null:
  "(\<not> isNaN (parseFloat (form_amount s)) \<and> \<not> js_le (parseFloat (form_amount s)) (Fin 0)
      \<and> \<not> blank (form_category s)
    \<longrightarrow> (\<exists>r. rows (db (addExpense now s)) = rows (db s) @ [r]
            \<and> (if blank (form_note s) then note' r = None
                else \<exists>t. note' r = Some t \<and> t \<noteq> [] \<and> trimmed_of (form_note s) t)))
   \<and> (editingExpense s = Some e
      \<and> \<not> isNaN (parseFloat (editAmount s)) \<and> \<not> js_le (parseFloat (editAmount s)) (Fin 0)
      \<and> \<not> blank (editCategory s) \<and> \<not> blank (editDate s)
    \<longrightarrow> (\<forall>r \<in> set (rows (db (handleSaveEdit s))).
            id' r = id' e \<longrightarrow>
              (if blank (editNote s) then note' r = None
               else \<exists>t. note' r = Some t \<and> t \<noteq> [] \<and> trimmed_of (editNote s) t)))"
proof (intro conjI impI)
  assume v: "\<not> isNaN (parseFloat (form_amount s)) \<and> \<not> js_le (parseFloat (form_amount s)) (Fin 0)
      \<and> \<not> blank (form_category s)"
  then show "\<exists>r. rows (db (addExpense now s)) = rows (db s) @ [r]
            \<and> (if blank (form_note s) then note' r = None
                else \<exists>t. note' r = Some t \<and> t \<noteq> [] \<and> trimmed_of (form_note s) t)"
    using addExpense_valid_rows [of s now] trimmed_of_trim [of "form_note s"]
    by (simp add: trim_blank_iff)
next
  assume v: "editingExpense s = Some e
      \<and> \<not> isNaN (parseFloat (editAmount s)) \<and> \<not> js_le (parseFloat (editAmount s)) (Fin 0)
      \<and> \<not> blank (editCategory s) \<and> \<not> blank (editDate s)"
  then show "\<forall>r \<in> set (rows (db (handleSaveEdit s))).
            id' r = id' e \<longrightarrow>
              (if blank (editNote s) then note' r = None
               else \<exists>t. note' r = Some t \<and> t \<noteq> [] \<and> trimmed_of (editNote s) t)"
    using handleSaveEdit_valid_rows [of s e] trimmed_of_trim [of "editNote s"]
    by (auto simp: trim_blank_iff)
qed

theorem note_trimmed_or_null_witness:
  "map note' (rows (db (addExpense 1718470800000 add_form))) = [Some ''lunch'']
   \<and> map id' (rows (db (handleSaveEdit edit_form))) = [1, 2]
   \<and> note' (hd (rows (db (handleSaveEdit edit_form)))) = None"
proof -
  have a: "\<not> isNaN (parseFloat (form_amount add_form))
           \<and> \<not> js_le (parseFloat (form_amount add_form)) (Fin 0)
           \<and> \<not> blank (form_category add_form)"
    by (simp add: add_form_def initial_screen_def pf_1250 blank_spaces isNaN_def)
  have e: "editingExpense edit_form = Some \<lparr>id' = 1, amount = JNum (Fin 10),
             category = Some ''Food'', note' = None, date = ''2024-01-01''\<rparr>
           \<and> \<not> isNaN (parseFloat (editAmount edit_form))
           \<and> \<not> js_le (parseFloat (editAmount edit_form)) (Fin 0)
           \<and> \<not> blank (editCategory edit_form) \<and> \<not> blank (editDate edit_form)"
    by (simp add: edit_form_def initial_screen_def pf_10 blank_spaces isNaN_def)
  note w = note_trimmed_or_null [where s = add_form and now = 1718470800000]
  note w' = note_trimmed_or_null [where s = edit_form and e = "\<lparr>id' = 1,
      amount = JNum (Fin 10), category = Some ''Food'', note' = None,
      date = ''2024-01-01''\<rparr>"]
  have fn: "form_note add_form = ''  lunch ''" "rows (db add_form) = []"
    by (simp_all add: add_form_def initial_screen_def createTable_def)
  from w a obtain r where r: "rows (db (addExpense 1718470800000 add_form))
       = rows (db add_form) @ [r]"
    "if blank (form_note add_form) then note' r = None
     else \<exists>t. note' r = Some t \<and> t \<noteq> [] \<and> trimmed_of (form_note add_form) t"
    by blast
  from r(2) obtain t where t: "note' r = Some t" "trimmed_of ''  lunch '' t"
    by (auto simp: fn blank_spaces)
  from trimmed_of_unique [OF t(2)] have "t = ''lunch''" by (simp add: trim_lunch)
  with t r fn have 1: "map note' (rows (db (addExpense 1718470800000 add_form))) = [Some ''lunch'']"
    by simp
  from w' e have ed: "\<forall>r \<in> set (rows (db (handleSaveEdit edit_form))).
      id' r = 1 \<longrightarrow> (if blank (editNote edit_form) then note' r = None
               else \<exists>t. note' r = Some t \<and> t \<noteq> [] \<and> trimmed_of (editNote edit_form) t)"
    by simp
  have en: "blank (editNote edit_form)"
    by (simp add: edit_form_def initial_screen_def blank_spaces)
  have rs: "map id' (rows (db (handleSaveEdit edit_form))) = [1, 2]"
    using e handleSaveEdit_valid_rows [of edit_form]
    by (simp add: edit_form_def initial_screen_def two_rows_def trim_blank_iff blank_spaces)
  then have ne: "rows (db (handleSaveEdit edit_form)) \<noteq> []" by auto
  then have "hd (rows (db (handleSaveEdit edit_form))) \<in> set (rows (db (handleSaveEdit edit_form)))"
    by (rule hd_in_set)
  moreover have "id' (hd (rows (db (handleSaveEdit edit_form)))) = 1"
    using rs ne by (simp add: hd_map [symmetric])
  ultimately have 2: "note' (hd (rows (db (handleSaveEdit edit_form)))) = None"
    using ed en by simp
  from 1 rs 2 show ?thesis by blast
qed

subsection \<open>Totals and the chart\<close>

lemma totalSpending_Nil: "totalSpending [] = Fin 0"
  by (simp add: totalSpending_def)

lemma totalSpending_snoc: "totalSpending (es @ [e]) = js_add (totalSpending es) (amt_of e)"
  by (simp add: totalSpending_def)

lemma amt_of_cases:
  "amt_of e = (case amount e of
                 JUndefined \<Rightarrow> Fin 0
               | JNull \<Rightarrow> Fin 0
               | JNum x \<Rightarrow> (if x = NaN then Fin 0 else x)
               | JStr t \<Rightarrow> (if t = [] then Fin 0 else string_to_number t))"
  by (auto simp: amt_of_def split: jsval.splits)

lemma total_ten_and_half: "totalSpending ten_and_half = Fin (31 / 2)"
  by code_simp

lemma total_abc: "totalSpending [rec_abc] = NaN"
  by code_simp













lemma totalsByCategory_food:
  "totalsByCategory food_records = [(''Food'', PNum (Fin 5)), (''Uncategorized'', PNum (Fin 1))]"
  by code_simp

subsection \<open>Claims on the totals and the chart\<close>

text \<open>
  C3, as amended. \<^verbatim>\<open>totalSpending\<close> is 0 on the empty list and otherwise adds, from 0
  and in list order, what each record contributes, each addition rounding as \<^verbatim>\<open>+\<close>
  does. A record contributes 0 when its amount is falsy (missing, \<^verbatim>\<open>null\<close>, 0,
  \<^verbatim>\<open>NaN\<close> or the empty string) and \<^verbatim>\<open>Number(amount)\<close> otherwise: the amount itself
  when it is a number, and for a string that is not empty what \<^verbatim>\<open>Number\<close> reads from
  it, which is \<^verbatim>\<open>NaN\<close> when the string is not a numeral. The amounts 10 and 5.5 total
  15.5.
\<close>

theorem totalSpending_sum:
  "totalSpending [] = Fin 0
   \<and> totalSpending (es @ [e]) = js_add (totalSpending es) (amt_of e)
   \<and> amt_of e = (case amount e of
                   JUndefined \<Rightarrow> Fin 0
                 | JNull \<Rightarrow> Fin 0
                 | JNum x \<Rightarrow> (if x = NaN then Fin 0 else x)
                 | JStr t \<Rightarrow> (if t = [] then Fin 0 else string_to_number t))
   \<and> totalSpending ten_and_half = Fin (31 / 2)"
  using totalSpending_Nil totalSpending_snoc [of es e] amt_of_cases [of e] total_ten_and_half
  by simp

text \<open>
  C3 as stated fails: a record whose amount is the string \<^verbatim>\<open>abc\<close>, which is not
  numeric, does not contribute 0; it makes the total \<^verbatim>\<open>NaN\<close>.
\<close>

theorem totalSpending_non_numeric_counterexample:
  "amount rec_abc = JStr ''abc'' \<and> Number (amount rec_abc) = NaN
   \<and> totalSpending [rec_abc] = NaN \<and> totalSpending [rec_abc] \<noteq> totalSpending []"
  by code_simp

text \<open>
  C4. The code departs from the claim at a category that names a property of
  \<^verbatim>\<open>Object.prototype\<close>: for one record of 12.5 in the category \<^verbatim>\<open>constructor\<close>
  the entry is not the number 12.5 but a string, the text of the inherited function
  followed by \<^verbatim>\<open>12.5\<close>. A category that is an array index, such as \<^verbatim>\<open>7\<close>, is
  listed before the categories seen earlier. (\<open>totalsByCategory_food\<close> is the case the
  claim gives: two records of \<^verbatim>\<open>Food\<close> and one without category.)
\<close>

theorem totalsByCategory_prototype_name:
  "totalsByCategory [rec_constructor] = [(''constructor'', PText ''constructor'' [Fin (25 / 2)])]
   \<and> amt_of rec_constructor = Fin (25 / 2)
   \<and> Object_entries (totalsByCategory numbered_records)
       = [(''7'', PNum (Fin 2)), (''Food'', PNum (Fin 3))]"
  by code_simp



lemma set_put: "set (put k v m) \<subseteq> insert (k, v) (set m)"
  by (induction m) (auto split: if_splits)

lemma add_to_map_nonneg:
  assumes "nonneg_totals m" "c \<notin> set object_prototype_keys" "js_le (Fin 0) a"
  shows "nonneg_totals (add_to_map c a m)"
proof -
  have z: "js_le (Fin 0) (Fin 0)" by simp
  have p: "nonneg_totals (put c (PNum y) m)" if "js_le (Fin 0) y" for y
    using set_put [of c "PNum y" m] assms(1) that
    unfolding nonneg_totals_def by fastforce
  show ?thesis
  proof (cases "map_of m c")
    case None
    with assms(2) p [OF js_add_nonneg [OF z assms(3)]] show ?thesis
      by (simp add: add_to_map_def)
  next
    case (Some v)
    then have "(c, v) \<in> set m" by (rule map_of_SomeD)
    with assms(1) obtain x where x: "v = PNum x" "js_le (Fin 0) x"
      unfolding nonneg_totals_def by fastforce
    then have "js_le (Fin 0) (if truthy (JNum x) then x else Fin 0)" by simp
    from p [OF js_add_nonneg [OF this assms(3)]] Some x(1) show ?thesis
      by (simp add: add_to_map_def del: truthy.simps)
  qed
qed

lemma totals_nonneg:
  assumes "\<forall>e \<in> set es. js_le (Fin 0) (amt_of e)"
    "\<forall>e \<in> set es. cat_of e \<notin> set object_prototype_keys"
  shows "nonneg_totals (totalsByCategory es)"
  using assms
proof (induction es rule: rev_induct)
  case Nil
  then show ?case by (simp add: totalsByCategory_def nonneg_totals_def)
next
  case (snoc e es)
  then have "nonneg_totals (totalsByCategory es)" by simp
  from add_to_map_nonneg [OF this, of "cat_of e" "amt_of e"] snoc.prems
  show ?case by (simp add: totalsByCategory_def)
qed

lemma positive_amt_of: "positive_amounts es \<Longrightarrow> \<forall>e \<in> set es. js_le (Fin 0) (amt_of e)"
proof
  fix e assume "positive_amounts es" "e \<in> set es"
  then obtain x where x: "amount e = JNum x" "js_lt (Fin 0) x"
    unfolding positive_amounts_def by blast
  then show "js_le (Fin 0) (amt_of e)"
    by (cases x) (auto simp: amt_of_def)
qed

lemma initial_positive: "positive_amounts (rows (db initial_screen))"
  by (simp add: positive_amounts_def initial_screen_def createTable_def)

lemma addExpense_positive:
  "positive_amounts (rows (db s)) \<Longrightarrow> positive_amounts (rows (db (addExpense now s)))"
  using js_valid_amount [of "parseFloat (form_amount s)"]
  by (auto simp: addExpense_def Let_def loadExpenses_def sql_insert_def positive_amounts_def)

lemma handleSaveEdit_positive:
  "positive_amounts (rows (db s)) \<Longrightarrow> positive_amounts (rows (db (handleSaveEdit s)))"
  using js_valid_amount [of "parseFloat (editAmount s)"]
  by (auto simp: handleSaveEdit_def Let_def loadExpenses_def sql_update_def alert_def
      positive_amounts_def split: option.splits)

lemma deleteExpense_positive:
  "positive_amounts (rows (db s)) \<Longrightarrow> positive_amounts (rows (db (deleteExpense i s)))"
  by (auto simp: deleteExpense_def loadExpenses_def sql_delete_def positive_amounts_def)

lemma loadExpenses_positive:
  "positive_amounts (rows (db s)) \<Longrightarrow> positive_amounts (expenses (loadExpenses s))"
  by (simp add: loadExpenses_def sql_select_all_def positive_amounts_def set_select_all)

lemma filteredExpenses_positive:
  "positive_amounts es \<Longrightarrow> positive_amounts (filteredExpenses parse tza now flt es)"
  by (auto simp: filteredExpenses_def positive_amounts_def)



subsection \<open>Claims on the filters\<close>

text \<open>
  C6. The code departs from the claim on a host west of UTC. A date string
  \<^verbatim>\<open>YYYY-MM-DD\<close> is read as midnight UTC, and its year and month are then taken in
  local time, where that instant is still the evening before. Five hours west of UTC, at
  noon of 2024-06-15, the record dated 2024-06-01 is not in the month's list, and the
  record dated 2024-07-01 is.
\<close>

theorem month_filter_west_of_utc:
  "getFullYear five_hours_west noon_2024_06_15_west = 2024
   \<and> getMonth five_hours_west noon_2024_06_15_west = 5
   \<and> getDate five_hours_west noon_2024_06_15_west = 15
   \<and> Date_parse_iso ''2024-06-01'' = Some 1717200000000
   \<and> getMonth five_hours_west 1717200000000 = 4
   \<and> getDate five_hours_west 1717200000000 = 31
   \<and> isInCurrentMonth Date_parse_iso five_hours_west noon_2024_06_15_west ''2024-06-01'' = False
   \<and> isInCurrentMonth Date_parse_iso five_hours_west noon_2024_06_15_west ''2024-07-01'' = True"
  by code_simp

text \<open>
  C5. The interval is computed as the claim says (\<open>week_interval\<close>,
  \<open>week_starts_on_sunday\<close>), but the same reading of the date string as midnight UTC
  shifts the dates against it. Five hours west of UTC, at noon of Wednesday 2024-06-12,
  the week runs from Sunday 2024-06-09 to Saturday 2024-06-15; the record dated
  2024-06-09 is not in the week's list, and the record dated 2024-06-16 is.
\<close>

theorem week_filter_west_of_utc:
  "getFullYear five_hours_west noon_2024_06_12_west = 2024
   \<and> getMonth five_hours_west noon_2024_06_12_west = 5
   \<and> getDate five_hours_west noon_2024_06_12_west = 12
   \<and> getDay five_hours_west noon_2024_06_12_west = 3
   \<and> setDate five_hours_west (setHours0 five_hours_west noon_2024_06_12_west)
         (getDate five_hours_west noon_2024_06_12_west
          - getDay five_hours_west noon_2024_06_12_west) = 1717909200000
   \<and> toISOString 1717909200000 = ''2024-06-09T05:00:00.000Z''
   \<and> Date_parse_iso ''2024-06-09'' = Some 1717891200000
   \<and> isInCurrentWeek Date_parse_iso five_hours_west noon_2024_06_12_west ''2024-06-09'' = False
   \<and> isInCurrentWeek Date_parse_iso five_hours_west noon_2024_06_12_west ''2024-06-16'' = True"
  by code_simp

subsection \<open>Totals by category and the grand total\<close>





lemma sub_sums_Nil: "sub_sums [] = {0}"
  by (simp add: sub_sums_def)

lemma sub_sums_Cons: "sub_sums (x # xs) = sub_sums xs \<union> (\<lambda>s. x + s) ` sub_sums xs"
  by (simp add: sub_sums_def Let_def image_Un image_image Un_commute)

lemma in_sub_sums_Cons:
  "s \<in> sub_sums (x # xs) \<longleftrightarrow> s \<in> sub_sums xs \<or> (\<exists>t \<in> sub_sums xs. s = x + t)"
  unfolding sub_sums_Cons by blast

lemma sub_sums_zero: "0 \<in> sub_sums xs"
  by (induction xs) (simp_all add: sub_sums_Nil in_sub_sums_Cons)

lemma sub_sums_total: "sum_list xs \<in> sub_sums xs"
  by (simp add: sub_sums_def subseqs_refl)

lemma in_sub_sums_append:
  "s \<in> sub_sums (xs @ ys) \<longleftrightarrow> (\<exists>a \<in> sub_sums xs. \<exists>b \<in> sub_sums ys. s = a + b)"
proof (induction xs arbitrary: s)
  case Nil
  then show ?case by (simp add: sub_sums_Nil)
next
  case (Cons x xs)
  show ?case
  proof
    assume "s \<in> sub_sums ((x # xs) @ ys)"
    then consider "s \<in> sub_sums (xs @ ys)" | t where "t \<in> sub_sums (xs @ ys)" "s = x + t"
      by (auto simp: in_sub_sums_Cons)
    then show "\<exists>a \<in> sub_sums (x # xs). \<exists>b \<in> sub_sums ys. s = a + b"
    proof cases
      case 1
      then obtain a b where "a \<in> sub_sums xs" "b \<in> sub_sums ys" "s = a + b"
        using Cons.IH by blast
      then show ?thesis by (auto simp: in_sub_sums_Cons)
    next
      case 2
      then obtain a b where ab: "a \<in> sub_sums xs" "b \<in> sub_sums ys" "t = a + b"
        using Cons.IH by blast
      then have "x + a \<in> sub_sums (x # xs)" by (auto simp: in_sub_sums_Cons)
      moreover have "s = (x + a) + b" using 2 ab by (simp add: add.assoc)
      ultimately show ?thesis using ab(2) by blast
    qed
  next
    assume "\<exists>a \<in> sub_sums (x # xs). \<exists>b \<in> sub_sums ys. s = a + b"
    then obtain a b where ab: "a \<in> sub_sums (x # xs)" "b \<in> sub_sums ys" "s = a + b"
      by blast
    from ab(1) consider "a \<in> sub_sums xs" | t where "t \<in> sub_sums xs" "a = x + t"
      by (auto simp: in_sub_sums_Cons)
    then show "s \<in> sub_sums ((x # xs) @ ys)"
    proof cases
      case 1
      with ab have "s \<in> sub_sums (xs @ ys)" using Cons.IH by blast
      then show ?thesis by (simp add: in_sub_sums_Cons)
    next
      case 2
      with ab have "t + b \<in> sub_sums (xs @ ys)" using Cons.IH by blast
      moreover have "s = x + (t + b)" using 2 ab by (simp add: add.assoc)
      ultimately show ?thesis by (auto simp: in_sub_sums_Cons)
    qed
  qed
qed




lemma sub_sums_append_left: "sub_sums xs \<subseteq> sub_sums (xs @ ys)"
proof
  fix s assume "s \<in> sub_sums xs"
  moreover have "0 \<in> sub_sums ys" by (rule sub_sums_zero)
  moreover have "s = s + 0" by simp
  ultimately show "s \<in> sub_sums (xs @ ys)" unfolding in_sub_sums_append by blast
qed


lemma sub_sums_keep: "t \<in> sub_sums xs \<Longrightarrow> t \<in> sub_sums (x # xs)"
  unfolding in_sub_sums_Cons by blast





























lemma whole_sub_sums:
  "s \<in> sub_sums (map of_nat ns) \<Longrightarrow> \<exists>k::nat. s = of_nat k \<and> k \<le> sum_list ns"
proof (induction ns arbitrary: s)
  case Nil
  then show ?case by (simp add: sub_sums_Nil)
next
  case (Cons n ns)
  from Cons.prems consider "s \<in> sub_sums (map of_nat ns)"
    | t where "t \<in> sub_sums (map of_nat ns)" "s = of_nat n + t"
    by (auto simp: in_sub_sums_Cons)
  then show ?case
  proof cases
    case 1
    with Cons.IH obtain k where "s = of_nat k" "k \<le> sum_list ns" by blast
    then show ?thesis by (intro exI [of _ k]) simp
  next
    case 2
    with Cons.IH obtain k where "t = of_nat k" "k \<le> sum_list ns" by blast
    with 2 show ?thesis by (intro exI [of _ "n + k"]) simp
  qed
qed

lemma whole_exact:
  assumes "sum_list ns \<le> 2 ^ 53" "xs \<in> set (subseqs (map of_nat ns))"
  shows "exact (sum_list xs)"
proof -
  from assms(2) have "sum_list xs \<in> sub_sums (map of_nat ns)" by (simp add: sub_sums_def)
  from whole_sub_sums [OF this] obtain k :: nat where k: "sum_list xs = of_nat k" "k \<le> sum_list ns"
    by blast
  with assms(1) have "int k \<le> 2 ^ 53"
    by (metis of_nat_le_iff of_nat_numeral of_nat_power order_trans)
  from round_double_of_int [OF _ this] k(1) show ?thesis by (simp add: exact_def)
qed



lemma tenths_typed:
  "parseFloat ''0.1'' = Fin (3602879701896397 / 36028797018963968)"
  "parseFloat ''1.1'' = Fin (2476979795053773 / 2251799813685248)"
  by code_simp+




end
